theory Spec2Isabelle
  imports Main
begin

section \<open>Messages and tool invocations\<close>

text \<open>
  A tool call is the dictionary the agent code builds and reads: a tool name, a dictionary
  of arguments and the identifier that the matching tool result repeats in its
  \<open>tool_call_id\<close>. Dictionaries are association lists looked up with \<open>map_of\<close>.
\<close>

type_synonym args = "(string \<times> string) list"

record tool_call =
  tc_name :: string
  tc_args :: args
  tc_id :: string

datatype role = System | Human | AI | Tool

text \<open>
  One record stands for the four message classes. Only an \<open>AI\<close> message has the attribute
  \<open>tool_calls\<close>; only a \<open>Tool\<close> message has a \<open>tool_call_id\<close>. The field \<open>msg_id\<close> is
  the attribute \<open>id\<close> of the message, \<open>None\<close> until one is assigned.
\<close>

record message =
  role :: role
  content :: string
  tool_calls :: "tool_call list"
  tool_call_id :: "string option"
  msg_id :: "string option"

definition AIMessage :: "string \<Rightarrow> tool_call list \<Rightarrow> message" where
  "AIMessage c tcs = \<lparr>role = AI, content = c, tool_calls = tcs, tool_call_id = None, msg_id = None\<rparr>"

definition ToolMessage :: "string \<Rightarrow> string \<Rightarrow> message" where
  "ToolMessage c i = \<lparr>role = Tool, content = c, tool_calls = [], tool_call_id = Some i, msg_id = None\<rparr>"

definition HumanMessage :: "string \<Rightarrow> message" where
  "HumanMessage c = \<lparr>role = Human, content = c, tool_calls = [], tool_call_id = None, msg_id = None\<rparr>"

definition SystemMessage :: "string \<Rightarrow> message" where
  "SystemMessage c = \<lparr>role = System, content = c, tool_calls = [], tool_call_id = None, msg_id = None\<rparr>"

datatype error =
    IndexError
  | KeyError string
  | AttributeError
  | ValueError string
  | LLMError string
  | ToolException string
  | GraphRecursionError

text \<open>What running a tool gives: its output text, or the text of the exception it raised.\<close>

datatype tool_outcome = Output string | Raised string

section \<open>The graph's nodes, its state and the external collaborators\<close>

datatype node =
    Node_list_tables
  | Node_call_get_schema
  | Node_get_schema
  | Node_generate_query
  | Node_check_query
  | Node_run_query
  | END

text \<open>
  The log of what a run did: every node executed, every language-model call (with the node
  that made it) and every tool executed (with its name and arguments). The program keeps no
  such log; it is carried along so that statements about the order of calls can be made.
\<close>

datatype event = NodeRun node | ModelCall node | ToolCall string args

text \<open>
  The collaborators the agent is built from and does not define: the language model (given
  the names of the bound tools, whether a tool call is forced, and the messages; it answers
  with a text and tool calls, or fails), the three tools of the SQL toolkit over a data
  source of type \<open>'db\<close> (only the query tool can change the data source), the dialect
  name and the stream of fresh identifiers (\<open>uuid4 e n\<close> is the \<open>n\<close>-th identifier drawn).
\<close>

record 'db env =
  llm :: "string list \<Rightarrow> bool \<Rightarrow> message list \<Rightarrow> error + (string \<times> tool_call list)"
  list_tables_tool :: "'db \<Rightarrow> args \<Rightarrow> tool_outcome"
  get_schema_tool :: "'db \<Rightarrow> args \<Rightarrow> tool_outcome"
  run_query_tool :: "'db \<Rightarrow> args \<Rightarrow> tool_outcome \<times> 'db"
  dialect :: string
  uuid4 :: "nat \<Rightarrow> string"

text \<open>
  The state of a run: the messages of \<open>MessagesState\<close>, the data source, the number of
  identifiers drawn so far and the log.
\<close>

record 'db state =
  messages :: "message list"
  db :: 'db
  draws :: nat
  trace :: "event list"

section \<open>The reducer of the message list\<close>

text \<open>
  \<open>MessagesState\<close> merges every update into the message list with the library's
  \<open>add_messages\<close>: messages without an identifier get a fresh one; a new message whose
  identifier is already in the list replaces that message where it stands (the index kept
  for an identifier is the last one holding it); any other new message is appended.
\<close>

fun assign_ids :: "(nat \<Rightarrow> string) \<Rightarrow> nat \<Rightarrow> message list \<Rightarrow> message list \<times> nat" where
  "assign_ids u n [] = ([], n)"
| "assign_ids u n (m # ms) =
     (case msg_id m of
        None \<Rightarrow> (case assign_ids u (Suc n) ms of (ms', n') \<Rightarrow> (m\<lparr>msg_id := Some (u n)\<rparr> # ms', n'))
      | Some i \<Rightarrow> (case assign_ids u n ms of (ms', n') \<Rightarrow> (m # ms', n')))"

fun last_index :: "string option \<Rightarrow> message list \<Rightarrow> nat option" where
  "last_index i [] = None"
| "last_index i (m # ms) =
     (case last_index i ms of
        Some k \<Rightarrow> Some (Suc k)
      | None \<Rightarrow> (if msg_id m = i then Some 0 else None))"

definition merge_message :: "message list \<Rightarrow> message \<Rightarrow> message list" where
  "merge_message merged m =
     (case last_index (msg_id m) merged of
        Some existing_idx \<Rightarrow> merged[existing_idx := m]
      | None \<Rightarrow> merged @ [m])"

definition add_messages ::
  "(nat \<Rightarrow> string) \<Rightarrow> nat \<Rightarrow> message list \<Rightarrow> message list \<Rightarrow> message list \<times> nat" where
  "add_messages u n left right =
     (case assign_ids u n left of (left', n1) \<Rightarrow>
      case assign_ids u n1 right of (right', n2) \<Rightarrow>
        (foldl merge_message left' right', n2))"

text \<open>
  A node returns the messages to merge, the data source as it leaves it and the events it
  caused; \<open>apply_update\<close> is the write of that update into the state.
\<close>

type_synonym 'db update = "message list \<times> 'db \<times> event list"

definition apply_update :: "'db env \<Rightarrow> node \<Rightarrow> 'db state \<Rightarrow> 'db update \<Rightarrow> 'db state" where
  "apply_update e n s upd =
     (case upd of (new, d, evs) \<Rightarrow>
      case add_messages (uuid4 e) (draws s) (messages s) new of (ms, k) \<Rightarrow>
        \<lparr>messages = ms, db = d, draws = k, trace = trace s @ NodeRun n # evs\<rparr>)"

text \<open>
  What the model is sent is the role, text, tool calls and tool-call identifier of each
  message; a message's own identifier is local bookkeeping and is not part of it.
\<close>

definition without_id :: "message \<Rightarrow> message" where
  "without_id m = m\<lparr>msg_id := None\<rparr>"

definition invoke_llm ::
  "'db env \<Rightarrow> string list \<Rightarrow> bool \<Rightarrow> message list \<Rightarrow> error + message" where
  "invoke_llm e tools forced msgs =
     (case llm e tools forced (map without_id msgs) of
        Inl err \<Rightarrow> Inl err
      | Inr (c, tcs) \<Rightarrow> Inr (AIMessage c tcs))"

section \<open>The prebuilt tool node\<close>

text \<open>
  \<open>ToolNode([tool])\<close> reads the last message, which must be an \<open>AI\<close> message, and answers
  each of its tool calls with one tool message carrying the call's identifier: the tool's
  output, the text of the error the tool raised, or the text that the requested tool is not
  one of the node's. The calls are taken in the order of the list.
\<close>

definition tool_error_text :: "string \<Rightarrow> string" where
  "tool_error_text x = ''Error: '' @ x @ ''\<newline> Please fix your mistakes.''"

definition invalid_tool_text :: "string \<Rightarrow> string \<Rightarrow> string" where
  "invalid_tool_text requested available =
     ''Error: '' @ requested @ '' is not a valid tool, try one of ['' @ available @ ''].''"

fun outcome_content :: "tool_outcome \<Rightarrow> string" where
  "outcome_content (Output t) = t"
| "outcome_content (Raised x) = tool_error_text x"

fun run_tool_calls ::
  "string \<Rightarrow> ('db \<Rightarrow> args \<Rightarrow> tool_outcome \<times> 'db) \<Rightarrow> 'db \<Rightarrow> tool_call list \<Rightarrow> 'db update" where
  "run_tool_calls nm tool d [] = ([], d, [])"
| "run_tool_calls nm tool d (c # cs) =
     (if tc_name c = nm then
        (case tool d (tc_args c) of (out, d1) \<Rightarrow>
         case run_tool_calls nm tool d1 cs of (ms, d2, evs) \<Rightarrow>
           (ToolMessage (outcome_content out) (tc_id c) # ms, d2, ToolCall nm (tc_args c) # evs))
      else
        (case run_tool_calls nm tool d cs of (ms, d2, evs) \<Rightarrow>
           (ToolMessage (invalid_tool_text (tc_name c) nm) (tc_id c) # ms, d2, evs)))"

definition ToolNode ::
  "string \<Rightarrow> ('db \<Rightarrow> args \<Rightarrow> tool_outcome \<times> 'db) \<Rightarrow> 'db state \<Rightarrow> error + 'db update" where
  "ToolNode nm tool s =
     (if messages s = [] then Inl (ValueError ''No message found in input'')
      else if role (last (messages s)) \<noteq> AI then Inl (ValueError ''Last message is not an AIMessage'')
      else Inr (run_tool_calls nm tool (db s) (tool_calls (last (messages s)))))"

definition get_schema_node :: "'db env \<Rightarrow> 'db state \<Rightarrow> error + 'db update" where
  "get_schema_node e s = ToolNode ''sql_db_schema'' (\<lambda>d a. (get_schema_tool e d a, d)) s"

definition run_query_node :: "'db env \<Rightarrow> 'db state \<Rightarrow> error + 'db update" where
  "run_query_node e s = ToolNode ''sql_db_query'' (run_query_tool e) s"

section \<open>The node functions of \<open>create_sql_agent\<close>\<close>

definition list_tables :: "'db env \<Rightarrow> 'db state \<Rightarrow> error + 'db update" where
  "list_tables e s =
     (let tool_call = \<lparr>tc_name = ''sql_db_list_tables'', tc_args = [], tc_id = ''abc123''\<rparr>;
          tool_call_message = AIMessage '''' [tool_call]
      in case list_tables_tool e (db s) (tc_args tool_call) of
           Raised x \<Rightarrow> Inl (ToolException x)
         | Output t \<Rightarrow>
             (let tool_message = ToolMessage t (tc_id tool_call);
                  response = AIMessage (''Available tables: '' @ content tool_message) []
              in Inr ([tool_call_message, tool_message, response], db s,
                      [ToolCall ''sql_db_list_tables'' (tc_args tool_call)])))"

definition call_get_schema :: "'db env \<Rightarrow> 'db state \<Rightarrow> error + 'db update" where
  "call_get_schema e s =
     (case invoke_llm e [''sql_db_schema''] True (messages s) of
        Inl err \<Rightarrow> Inl err
      | Inr response \<Rightarrow> Inr ([response], db s, [ModelCall Node_call_get_schema]))"

definition generate_query_system_prompt :: "string \<Rightarrow> string" where
  "generate_query_system_prompt dial =
     ''\<newline>    You are an agent designed to interact with a SQL database.'' @
     ''\<newline>    Given an input question, create a syntactically correct '' @ dial @ '' query to run,'' @
     ''\<newline>    then look at the results of the query and return the answer. Unless the user'' @
     ''\<newline>    specifies a specific number of examples they wish to obtain, always limit your'' @
     ''\<newline>    query to at most 5 results.'' @
     ''\<newline>    '' @
     ''\<newline>    You can order the results by a relevant column to return the most interesting'' @
     ''\<newline>    examples in the database. Never query for all the columns from a specific table,'' @
     ''\<newline>    only ask for the relevant columns given the question.'' @
     ''\<newline>    '' @
     ''\<newline>    DO NOT make any DML statements (INSERT, UPDATE, DELETE, DROP etc.) to the database.'' @
     ''\<newline>    ''"

definition generate_query :: "'db env \<Rightarrow> 'db state \<Rightarrow> error + 'db update" where
  "generate_query e s =
     (let system_message = SystemMessage (generate_query_system_prompt (dialect e))
      in case invoke_llm e [''sql_db_query''] False ([system_message] @ messages s) of
           Inl err \<Rightarrow> Inl err
         | Inr response \<Rightarrow> Inr ([response], db s, [ModelCall Node_generate_query]))"

definition check_query_system_prompt :: "string \<Rightarrow> string" where
  "check_query_system_prompt dial =
     ''\<newline>    You are a SQL expert with a strong attention to detail.'' @
     ''\<newline>    Double check the '' @ dial @ '' query for common mistakes, including:'' @
     ''\<newline>    - Using NOT IN with NULL values'' @
     ''\<newline>    - Using UNION when UNION ALL should have been used'' @
     ''\<newline>    - Using BETWEEN for exclusive ranges'' @
     ''\<newline>    - Data type mismatch in predicates'' @
     ''\<newline>    - Properly quoting identifiers'' @
     ''\<newline>    - Using the correct number of arguments for functions'' @
     ''\<newline>    - Casting to the correct data type'' @
     ''\<newline>    - Using the proper columns for joins'' @
     ''\<newline>    '' @
     ''\<newline>    If there are any of the above mistakes, rewrite the query. If there are no mistakes,'' @
     ''\<newline>    just reproduce the original query.'' @
     ''\<newline>    '' @
     ''\<newline>    You will call the appropriate tool to execute the query after running this check.'' @
     ''\<newline>    ''"

text \<open>
  \<open>state["messages"][-1].tool_calls[0]\<close> raises when the list is empty, when the last
  message is not an \<open>AI\<close> message or when it has no tool call, and \<open>["args"]["query"]\<close>
  raises when the call has no such argument.
\<close>

definition check_query :: "'db env \<Rightarrow> 'db state \<Rightarrow> error + 'db update" where
  "check_query e s =
     (let system_message = SystemMessage (check_query_system_prompt (dialect e))
      in if messages s = [] then Inl IndexError
         else if role (last (messages s)) \<noteq> AI then Inl AttributeError
         else (case tool_calls (last (messages s)) of
                 [] \<Rightarrow> Inl IndexError
               | tool_call # _ \<Rightarrow>
                   (case map_of (tc_args tool_call) ''query'' of
                      None \<Rightarrow> Inl (KeyError ''query'')
                    | Some q \<Rightarrow>
                        (let user_message = HumanMessage q
                         in case invoke_llm e [''sql_db_query''] True [system_message, user_message] of
                              Inl err \<Rightarrow> Inl err
                            | Inr response \<Rightarrow>
                                Inr ([response\<lparr>msg_id := msg_id (last (messages s))\<rparr>], db s,
                                     [ModelCall Node_check_query])))))"

definition should_continue :: "'db state \<Rightarrow> error + node" where
  "should_continue s =
     (if messages s = [] then Inl IndexError
      else (let last_message = last (messages s)
            in if role last_message \<noteq> AI then Inl AttributeError
               else if tool_calls last_message = [] then Inr END
               else Inr Node_check_query))"

section \<open>The compiled graph\<close>

text \<open>
  One step runs the node the control is at, merges its update into the state and follows
  the node's edge: the fixed edges of the builder, and \<open>should_continue\<close> after
  \<open>generate_query\<close>.
\<close>

definition run_node :: "'db env \<Rightarrow> node \<Rightarrow> 'db state \<Rightarrow> error + 'db update" where
  "run_node e n s =
     (case n of
        Node_list_tables \<Rightarrow> list_tables e s
      | Node_call_get_schema \<Rightarrow> call_get_schema e s
      | Node_get_schema \<Rightarrow> get_schema_node e s
      | Node_generate_query \<Rightarrow> generate_query e s
      | Node_check_query \<Rightarrow> check_query e s
      | Node_run_query \<Rightarrow> run_query_node e s
      | END \<Rightarrow> Inr ([], db s, []))"

definition next_node :: "node \<Rightarrow> 'db state \<Rightarrow> error + node" where
  "next_node n s =
     (case n of
        Node_list_tables \<Rightarrow> Inr Node_call_get_schema
      | Node_call_get_schema \<Rightarrow> Inr Node_get_schema
      | Node_get_schema \<Rightarrow> Inr Node_generate_query
      | Node_generate_query \<Rightarrow> should_continue s
      | Node_check_query \<Rightarrow> Inr Node_run_query
      | Node_run_query \<Rightarrow> Inr Node_generate_query
      | END \<Rightarrow> Inr END)"

definition step :: "'db env \<Rightarrow> node \<Rightarrow> 'db state \<Rightarrow> error + (node \<times> 'db state)" where
  "step e n s =
     (if n = END then Inr (END, s)
      else case run_node e n s of
             Inl err \<Rightarrow> Inl err
           | Inr upd \<Rightarrow>
               (let s' = apply_update e n s upd
                in case next_node n s' of
                     Inl err \<Rightarrow> Inl err
                   | Inr n' \<Rightarrow> Inr (n', s')))"

text \<open>\<open>run_steps e k\<close> takes exactly \<open>k\<close> steps (a step at \<open>END\<close> changes nothing).\<close>

fun run_steps :: "'db env \<Rightarrow> nat \<Rightarrow> node \<Rightarrow> 'db state \<Rightarrow> error + (node \<times> 'db state)" where
  "run_steps e 0 n s = Inr (n, s)"
| "run_steps e (Suc k) n s =
     (case step e n s of
        Inl err \<Rightarrow> Inl err
      | Inr (n', s') \<Rightarrow> run_steps e k n' s')"

text \<open>
  The graph runner executes nodes until the control reaches \<open>END\<close>; it gives up with
  \<open>GraphRecursionError\<close> once the number of steps its configuration allows is used up.
  That number is a setting of the runner, not of the agent, and is a parameter here.
\<close>

fun run_graph :: "'db env \<Rightarrow> nat \<Rightarrow> node \<Rightarrow> 'db state \<Rightarrow> error + 'db state" where
  "run_graph e limit END s = Inr s"
| "run_graph e 0 n s = Inl GraphRecursionError"
| "run_graph e (Suc limit) n s =
     (case step e n s of
        Inl err \<Rightarrow> Inl err
      | Inr (n', s') \<Rightarrow> run_graph e limit n' s')"

text \<open>The state a fresh conversation starts from: the user's message merged into no messages.\<close>

definition initial_state :: "'db env \<Rightarrow> 'db \<Rightarrow> string \<Rightarrow> 'db state" where
  "initial_state e d q =
     (case add_messages (uuid4 e) 0 [] [HumanMessage q] of (ms, k) \<Rightarrow>
        \<lparr>messages = ms, db = d, draws = k, trace = []\<rparr>)"

definition invoke :: "'db env \<Rightarrow> nat \<Rightarrow> 'db \<Rightarrow> string \<Rightarrow> error + 'db state" where
  "invoke e limit d q = run_graph e limit Node_list_tables (initial_state e d q)"

section \<open>The query endpoint\<close>

record QueryRequest =
  query :: string
  session_id :: string

record QueryResponse =
  result :: string
  sql_query :: "string option"
  response_session_id :: string

datatype http_error = HTTPException nat string

text \<open>
  The inner loop of the extraction stops at the first \<open>sql_db_query\<close> call of a message;
  the outer loop goes on, so a later message overwrites what an earlier one gave.
\<close>

fun first_sql_call :: "tool_call list \<Rightarrow> tool_call option" where
  "first_sql_call [] = None"
| "first_sql_call (tool_call # rest) =
     (if tc_name tool_call = ''sql_db_query'' then Some tool_call else first_sql_call rest)"

definition scan_message :: "string option \<Rightarrow> message \<Rightarrow> string option" where
  "scan_message acc m =
     (if role m = AI \<and> tool_calls m \<noteq> [] then
        (case first_sql_call (tool_calls m) of
           Some tool_call \<Rightarrow> map_of (tc_args tool_call) ''query''
         | None \<Rightarrow> acc)
      else acc)"

definition extract_sql_query :: "message list \<Rightarrow> string option" where
  "extract_sql_query msgs = foldl scan_message None msgs"

fun error_text :: "error \<Rightarrow> string" where
  "error_text IndexError = ''list index out of range''"
| "error_text (KeyError k) = [CHR 0x27] @ k @ [CHR 0x27]"
| "error_text AttributeError = ''object has no attribute tool_calls''"
| "error_text (ValueError x) = x"
| "error_text (LLMError x) = x"
| "error_text (ToolException x) = x"
| "error_text GraphRecursionError = ''Recursion limit reached without hitting a stop condition''"

text \<open>
  \<open>active_databases\<close> maps a session to its agent; here to the data source the agent was
  created over. The endpoint answers 404 for an unknown session and 500 for any exception
  of the run.
\<close>

definition query_database ::
  "'db env \<Rightarrow> nat \<Rightarrow> (string \<rightharpoonup> 'db) \<Rightarrow> QueryRequest \<Rightarrow> http_error + QueryResponse" where
  "query_database e limit active_databases request =
     (case active_databases (session_id request) of
        None \<Rightarrow> Inl (HTTPException 404 ''Session not found. Please upload a database first.'')
      | Some d \<Rightarrow>
          (case invoke e limit d (query request) of
             Inl err \<Rightarrow> Inl (HTTPException 500 (''Error processing query: '' @ error_text err))
           | Inr s \<Rightarrow>
               (let final_message = last (messages s);
                    response_content = content final_message
                in Inr \<lparr>result = response_content,
                        sql_query = extract_sql_query (messages s),
                        response_session_id = session_id request\<rparr>)))"

section \<open>What the endpoint reports as the executed query, in the words of its description\<close>

text \<open>
  A message counts when it is an \<open>AI\<close> message with a call of \<open>sql_db_query\<close>. The
  reported query is read from the last such message of the history: the \<open>query\<close> argument
  of that message's first \<open>sql_db_query\<close> call; with no such message nothing is reported.
\<close>

definition has_sql_call :: "message \<Rightarrow> bool" where
  "has_sql_call m = (role m = AI \<and> list_ex (\<lambda>tc. tc_name tc = ''sql_db_query'') (tool_calls m))"

definition sql_query_spec :: "message list \<Rightarrow> string option" where
  "sql_query_spec msgs =
     (case rev (filter has_sql_call msgs) of
        [] \<Rightarrow> None
      | m # _ \<Rightarrow>
          (case find (\<lambda>tc. tc_name tc = ''sql_db_query'') (tool_calls m) of
             None \<Rightarrow> None
           | Some tc \<Rightarrow> map_of (tc_args tc) ''query''))"

section \<open>Invariants of the conversation state\<close>

text \<open>\<open>stamp u n ms\<close> gives the messages \<open>ms\<close> the identifiers \<open>u n\<close>, \<open>u (n + 1)\<close>, ... in turn.\<close>

fun stamp :: "(nat \<Rightarrow> string) \<Rightarrow> nat \<Rightarrow> message list \<Rightarrow> message list" where
  "stamp u n [] = []"
| "stamp u n (m # ms) = m\<lparr>msg_id := Some (u n)\<rparr> # stamp u (Suc n) ms"

text \<open>Every message has an identifier, and it is one of the first \<open>n\<close> drawn.\<close>

definition ids_ok :: "(nat \<Rightarrow> string) \<Rightarrow> nat \<Rightarrow> message list \<Rightarrow> bool" where
  "ids_ok u n ms = (set (map msg_id ms) \<subseteq> Some ` u ` {..<n})"

text \<open>
  Reading a history from the left with the identifiers of the tool calls that still wait
  for their result: a tool message must answer the first waiting call; any other message
  may only come when no call waits, and an \<open>AI\<close> message makes its own calls wait. The
  reading fails (\<open>None\<close>) where a result is missing, repeated, out of order or unrequested.
\<close>

fun pending_calls :: "string list \<Rightarrow> message list \<Rightarrow> string list option" where
  "pending_calls p [] = Some p"
| "pending_calls p (m # ms) =
     (if role m = Tool then
        (case p of
           [] \<Rightarrow> None
         | i # p' \<Rightarrow> if tool_call_id m = Some i then pending_calls p' ms else None)
      else if p \<noteq> [] then None
      else if role m = AI then pending_calls (map tc_id (tool_calls m)) ms
      else pending_calls [] ms)"

text \<open>
  In \<open>all_answered ms\<close> every tool call of the history is followed at once by exactly one
  result per call, with the call's identifier, in the order of the calls.
\<close>

definition all_answered :: "message list \<Rightarrow> bool" where
  "all_answered ms = (pending_calls [] ms = Some [])"

text \<open>The last message is a request of the model and everything before it is answered.\<close>

definition open_request :: "message list \<Rightarrow> bool" where
  "open_request ms = (ms \<noteq> [] \<and> role (last ms) = AI \<and> all_answered (butlast ms))"

definition shape :: "node \<Rightarrow> message list \<Rightarrow> bool" where
  "shape n ms =
     (case n of
        Node_get_schema \<Rightarrow> open_request ms
      | Node_check_query \<Rightarrow> open_request ms \<and> tool_calls (last ms) \<noteq> []
      | Node_run_query \<Rightarrow> open_request ms
      | _ \<Rightarrow> all_answered ms)"

definition state_ok :: "'db env \<Rightarrow> node \<Rightarrow> 'db state \<Rightarrow> bool" where
  "state_ok e n s =
     (ids_ok (uuid4 e) (draws s) (messages s) \<and> messages s \<noteq> [] \<and> shape n (messages s))"

text \<open>The nodes a log says were executed, in order.\<close>

fun nodes_run :: "event list \<Rightarrow> node list" where
  "nodes_run [] = []"
| "nodes_run (NodeRun n # evs) = n # nodes_run evs"
| "nodes_run (ModelCall n # evs) = nodes_run evs"
| "nodes_run (ToolCall nm a # evs) = nodes_run evs"

text \<open>The arguments of the calls of the query tool that a log records, in the order of the log.\<close>

fun queries_run :: "event list \<Rightarrow> args list" where
  "queries_run [] = []"
| "queries_run (NodeRun n # evs) = queries_run evs"
| "queries_run (ModelCall n # evs) = queries_run evs"
| "queries_run (ToolCall nm a # evs) =
     (if nm = ''sql_db_query'' then a # queries_run evs else queries_run evs)"

text \<open>The data source after the query tool has run on each of the arguments in turn.\<close>

definition execute_all :: "'db env \<Rightarrow> 'db \<Rightarrow> args list \<Rightarrow> 'db" where
  "execute_all e d qs = foldl (\<lambda>d' a. snd (run_query_tool e d' a)) d qs"

text \<open>
  What of a state does not depend on the identifiers drawn for the messages: the messages
  as the model is sent them, the data source and the log.
\<close>

definition observable :: "'db state \<Rightarrow> message list \<times> 'db \<times> event list" where
  "observable s = (map without_id (messages s), db s, trace s)"

section \<open>Example collaborators\<close>

text \<open>An identifier stream without repetitions.\<close>

fun example_uuid4 :: "nat \<Rightarrow> string" where
  "example_uuid4 0 = ''u''"
| "example_uuid4 (Suc n) = CHR ''u'' # example_uuid4 n"

text \<open>A second identifier stream without repetitions, sharing no identifier with the first.\<close>

definition other_uuid4 :: "nat \<Rightarrow> string" where
  "other_uuid4 n = CHR ''v'' # example_uuid4 n"

text \<open>
  A scripted model. Asked for the schema it requests the table \<open>orders\<close>. Asked to write a
  query it requests \<open>sql\<close> under the identifier \<open>call_A\<close>, unless the history already holds
  the result of a checked query, in which case it answers in words. Asked to check a query
  it reproduces the query it is shown, under the identifier \<open>call_B\<close>.
\<close>

definition example_llm ::
  "string \<Rightarrow> string list \<Rightarrow> bool \<Rightarrow> message list \<Rightarrow> error + (string \<times> tool_call list)" where
  "example_llm sql tools forced msgs =
     (if tools = [''sql_db_schema''] then
        Inr ([], [\<lparr>tc_name = ''sql_db_schema'', tc_args = [(''table_names'', ''orders'')],
                   tc_id = ''call_S''\<rparr>])
      else if forced then
        Inr ([], [\<lparr>tc_name = ''sql_db_query'', tc_args = [(''query'', content (last msgs))],
                   tc_id = ''call_B''\<rparr>])
      else if list_ex (\<lambda>m. tool_call_id m = Some ''call_B'') msgs then
        Inr (''Done.'', [])
      else
        Inr ([], [\<lparr>tc_name = ''sql_db_query'', tc_args = [(''query'', sql)],
                   tc_id = ''call_A''\<rparr>]))"




text \<open>
  Data sources are reduced to the number of rows of the table \<open>orders\<close>. The first query
  tool executes whatever it is given, so a \<open>DELETE\<close> empties the table; the second one only
  reads; the third one fails on every query.
\<close>

definition executing_tool :: "nat \<Rightarrow> args \<Rightarrow> tool_outcome \<times> nat" where
  "executing_tool rows a =
     (if map_of a ''query'' = Some ''DELETE FROM orders'' then (Output [], 0)
      else (Output ''[(1,)]'', rows))"

definition reading_tool :: "nat \<Rightarrow> args \<Rightarrow> tool_outcome \<times> nat" where
  "reading_tool rows a = (Output ''[(1,)]'', rows)"

definition failing_tool :: "nat \<Rightarrow> args \<Rightarrow> tool_outcome \<times> nat" where
  "failing_tool rows a = (Raised ''no such table: ordrs'', rows)"

definition example_env ::
  "(string list \<Rightarrow> bool \<Rightarrow> message list \<Rightarrow> error + (string \<times> tool_call list)) \<Rightarrow>
   (nat \<Rightarrow> args \<Rightarrow> tool_outcome \<times> nat) \<Rightarrow> nat env" where
  "example_env model tool =
     \<lparr>llm = model,
      list_tables_tool = (\<lambda>rows a. Output ''orders''),
      get_schema_tool = (\<lambda>rows a. Output ''CREATE TABLE orders (id INTEGER)''),
      run_query_tool = tool,
      dialect = ''sqlite'',
      uuid4 = example_uuid4\<rparr>"

text \<open>
  The states the scripted model's conversation goes through, for a question \<open>q\<close>, a query
  \<open>sql\<close> and a data source \<open>d\<close>: after the schema has been fetched and a query generated
  (\<open>pending_state\<close>), after the check (\<open>checked_state\<close>), after the execution with result
  text \<open>r\<close> (\<open>executed_state\<close>) and after the final answer (\<open>answered_state\<close>).
\<close>

definition example_prefix :: "string \<Rightarrow> message list" where
  "example_prefix q =
     [(HumanMessage q)\<lparr>msg_id := Some ''u''\<rparr>,
      (AIMessage [] [\<lparr>tc_name = ''sql_db_list_tables'', tc_args = [],
                      tc_id = ''abc123''\<rparr>])\<lparr>msg_id := Some ''uu''\<rparr>,
      (ToolMessage ''orders'' ''abc123'')\<lparr>msg_id := Some ''uuu''\<rparr>,
      (AIMessage ''Available tables: orders'' [])\<lparr>msg_id := Some ''uuuu''\<rparr>,
      (AIMessage [] [\<lparr>tc_name = ''sql_db_schema'', tc_args = [(''table_names'', ''orders'')],
                      tc_id = ''call_S''\<rparr>])\<lparr>msg_id := Some ''uuuuu''\<rparr>,
      (ToolMessage ''CREATE TABLE orders (id INTEGER)'' ''call_S'')\<lparr>msg_id := Some ''uuuuuu''\<rparr>]"

definition example_trace :: "event list" where
  "example_trace =
     [NodeRun Node_list_tables, ToolCall ''sql_db_list_tables'' [],
      NodeRun Node_call_get_schema, ModelCall Node_call_get_schema,
      NodeRun Node_get_schema, ToolCall ''sql_db_schema'' [(''table_names'', ''orders'')],
      NodeRun Node_generate_query, ModelCall Node_generate_query]"

definition candidate_message :: "string \<Rightarrow> message" where
  "candidate_message sql =
     (AIMessage [] [\<lparr>tc_name = ''sql_db_query'', tc_args = [(''query'', sql)],
                     tc_id = ''call_A''\<rparr>])\<lparr>msg_id := Some ''uuuuuuu''\<rparr>"

definition checked_message :: "string \<Rightarrow> message" where
  "checked_message sql =
     (AIMessage [] [\<lparr>tc_name = ''sql_db_query'', tc_args = [(''query'', sql)],
                     tc_id = ''call_B''\<rparr>])\<lparr>msg_id := Some ''uuuuuuu''\<rparr>"

definition result_message :: "string \<Rightarrow> message" where
  "result_message r = (ToolMessage r ''call_B'')\<lparr>msg_id := Some ''uuuuuuuu''\<rparr>"

definition pending_state :: "string \<Rightarrow> string \<Rightarrow> nat \<Rightarrow> nat state" where
  "pending_state q sql d =
     \<lparr>messages = example_prefix q @ [candidate_message sql], db = d, draws = 7,
      trace = example_trace\<rparr>"

definition checked_state :: "string \<Rightarrow> string \<Rightarrow> nat \<Rightarrow> nat state" where
  "checked_state q sql d =
     \<lparr>messages = example_prefix q @ [checked_message sql], db = d, draws = 7,
      trace = example_trace @ [NodeRun Node_check_query, ModelCall Node_check_query]\<rparr>"

definition executed_state :: "string \<Rightarrow> string \<Rightarrow> string \<Rightarrow> nat \<Rightarrow> nat state" where
  "executed_state q sql r d =
     \<lparr>messages = example_prefix q @ [checked_message sql, result_message r], db = d, draws = 8,
      trace = example_trace @
        [NodeRun Node_check_query, ModelCall Node_check_query,
         NodeRun Node_run_query, ToolCall ''sql_db_query'' [(''query'', sql)]]\<rparr>"

definition answered_state :: "string \<Rightarrow> string \<Rightarrow> string \<Rightarrow> nat \<Rightarrow> nat state" where
  "answered_state q sql r d =
     \<lparr>messages = example_prefix q @
        [checked_message sql, result_message r,
         (AIMessage ''Done.'' [])\<lparr>msg_id := Some ''uuuuuuuuu''\<rparr>],
      db = d, draws = 9,
      trace = example_trace @
        [NodeRun Node_check_query, ModelCall Node_check_query,
         NodeRun Node_run_query, ToolCall ''sql_db_query'' [(''query'', sql)],
         NodeRun Node_generate_query, ModelCall Node_generate_query]\<rparr>"

text \<open>The conversation about the number of orders, over a query tool that only reads.\<close>

definition count_env :: "nat env" where
  "count_env = example_env (example_llm ''SELECT COUNT(*) FROM orders'') reading_tool"

text \<open>The same conversation with a misspelt table name, over a query tool that fails.\<close>

definition typo_env :: "nat env" where
  "typo_env = example_env (example_llm ''SELECT COUNT(*) FROM ordrs'') failing_tool"

text \<open>A conversation whose model asks for a deletion, over a query tool that executes it.\<close>

definition delete_env :: "nat env" where
  "delete_env = example_env (example_llm ''DELETE FROM orders'') executing_tool"


section \<open>The reducer on fresh and on reused identifiers\<close>

lemma length_stamp [simp]: "length (stamp u n ms) = length ms"
  by (induction ms arbitrary: n) simp_all

lemma assign_ids_present:
  "list_all (\<lambda>m. msg_id m \<noteq> None) ms \<Longrightarrow> assign_ids u n ms = (ms, n)"
  by (induction ms) auto

lemma assign_ids_absent:
  "list_all (\<lambda>m. msg_id m = None) ms \<Longrightarrow> assign_ids u n ms = (stamp u n ms, n + length ms)"
  by (induction ms arbitrary: n) auto

lemma ids_ok_present: "ids_ok u n ms \<Longrightarrow> list_all (\<lambda>m. msg_id m \<noteq> None) ms"
  by (auto simp: ids_ok_def list_all_iff)

lemma last_index_None: "(last_index i ms = None) = (i \<notin> set (map msg_id ms))"
  by (induction ms) (auto split: option.splits)

lemma last_index_snoc: "msg_id m = i \<Longrightarrow> last_index i (pre @ [m]) = Some (length pre)"
  by (induction pre) (auto split: option.splits)

lemma ids_ok_mono: "ids_ok u n ms \<Longrightarrow> n \<le> k \<Longrightarrow> ids_ok u k ms"
  by (auto simp: ids_ok_def)

lemma ids_ok_snoc:
  "ids_ok u n ms \<Longrightarrow> ids_ok u (Suc n) (ms @ [m\<lparr>msg_id := Some (u n)\<rparr>])"
  by (auto simp: ids_ok_def)

lemma fresh_not_in: "inj u \<Longrightarrow> ids_ok u n ms \<Longrightarrow> Some (u n) \<notin> set (map msg_id ms)"
proof
  assume i: "inj u" and ok: "ids_ok u n ms" and mem: "Some (u n) \<in> set (map msg_id ms)"
  from ok mem obtain k where "k < n" "u k = u n"
    by (auto simp: ids_ok_def)
  with i show False by (auto dest: injD)
qed

lemma merge_fresh:
  "inj u \<Longrightarrow> ids_ok u n left \<Longrightarrow>
   foldl merge_message left (stamp u n new) = left @ stamp u n new \<and>
   ids_ok u (n + length new) (left @ stamp u n new)"
proof (induction new arbitrary: left n)
  case Nil
  then show ?case by simp
next
  case (Cons m new)
  let ?m = "m\<lparr>msg_id := Some (u n)\<rparr>"
  have "last_index (msg_id ?m) left = None"
    using fresh_not_in [OF Cons.prems] by (simp add: last_index_None)
  then have one: "merge_message left ?m = left @ [?m]"
    by (simp add: merge_message_def)
  have ok: "ids_ok u (Suc n) (left @ [?m])"
    using Cons.prems(2) by (rule ids_ok_snoc)
  from Cons.IH [OF Cons.prems(1) ok] one show ?case by simp
qed

lemma add_messages_fresh:
  assumes "inj u" "ids_ok u n left" "list_all (\<lambda>m. msg_id m = None) new"
  shows "add_messages u n left new = (left @ stamp u n new, n + length new)"
  using assms merge_fresh [OF assms(1,2), of new]
  by (simp add: add_messages_def assign_ids_present [OF ids_ok_present] assign_ids_absent)

lemma add_messages_replace_last:
  assumes "ids_ok u n (pre @ [x])" "msg_id r = msg_id x"
  shows "add_messages u n (pre @ [x]) [r] = (pre @ [r], n)"
proof -
  have p: "list_all (\<lambda>m. msg_id m \<noteq> None) (pre @ [x])"
    using assms(1) by (rule ids_ok_present)
  then have "msg_id r \<noteq> None" using assms(2) by simp
  then have r: "\<And>k. assign_ids u k [r] = ([r], k)"
    by (auto split: option.splits)
  have "last_index (msg_id r) (pre @ [x]) = Some (length pre)"
    using assms(2) by (simp add: last_index_snoc)
  then have m: "merge_message (pre @ [x]) r = pre @ [r]"
    by (simp add: merge_message_def)
  show ?thesis
    unfolding add_messages_def assign_ids_present [OF p] r by (simp add: m)
qed

lemma ids_ok_replace_last:
  "ids_ok u n (pre @ [x]) \<Longrightarrow> msg_id r = msg_id x \<Longrightarrow> ids_ok u n (pre @ [r])"
  by (auto simp: ids_ok_def)

section \<open>Writing an update into the state\<close>

lemma apply_update_fresh:
  assumes "inj (uuid4 e)" "ids_ok (uuid4 e) (draws s) (messages s)"
    "list_all (\<lambda>m. msg_id m = None) new"
  shows "apply_update e n s (new, d, evs) =
           \<lparr>messages = messages s @ stamp (uuid4 e) (draws s) new, db = d,
            draws = draws s + length new, trace = trace s @ NodeRun n # evs\<rparr>"
  by (simp add: apply_update_def add_messages_fresh [OF assms])

lemma ids_ok_fresh:
  "inj u \<Longrightarrow> ids_ok u n left \<Longrightarrow> ids_ok u (n + length new) (left @ stamp u n new)"
  using merge_fresh by blast

lemma apply_update_replace:
  assumes "ids_ok (uuid4 e) (draws s) (messages s)" "messages s = pre @ [x]" "msg_id r = msg_id x"
  shows "apply_update e n s ([r], d, evs) =
           \<lparr>messages = pre @ [r], db = d, draws = draws s, trace = trace s @ NodeRun n # evs\<rparr>"
  using assms add_messages_replace_last [of "uuid4 e" "draws s" pre x r]
  by (simp add: apply_update_def)

lemma pending_calls_append:
  "pending_calls p (xs @ ys) =
     (case pending_calls p xs of None \<Rightarrow> None | Some p' \<Rightarrow> pending_calls p' ys)"
  by (induction xs arbitrary: p) (auto split: list.splits)

lemma pending_calls_stamp: "pending_calls p (stamp u n ms) = pending_calls p ms"
  by (induction ms arbitrary: p n) (auto split: list.splits)

lemma run_tool_calls_answers:
  "run_tool_calls nm tool d cs = (ms, d', evs) \<Longrightarrow> pending_calls (map tc_id cs) ms = Some []"
  by (induction cs arbitrary: d ms d' evs)
     (auto simp: ToolMessage_def split: prod.splits if_splits)

lemma run_tool_calls_no_ids:
  "run_tool_calls nm tool d cs = (ms, d', evs) \<Longrightarrow> list_all (\<lambda>m. msg_id m = None) ms"
  by (induction cs arbitrary: d ms d' evs)
     (auto simp: ToolMessage_def split: prod.splits if_splits)

lemma run_tool_calls_length:
  "run_tool_calls nm tool d cs = (ms, d', evs) \<Longrightarrow> length ms = length cs"
  by (induction cs arbitrary: d ms d' evs) (auto split: prod.splits if_splits)

lemma run_tool_calls_events:
  "run_tool_calls nm tool d cs = (ms, d', evs) \<Longrightarrow> nodes_run evs = []"
  by (induction cs arbitrary: d ms d' evs) (auto split: prod.splits if_splits)

lemma open_request_answered:
  assumes "open_request ms"
  shows "pending_calls [] ms = Some (map tc_id (tool_calls (last ms)))"
proof (cases ms rule: rev_cases)
  case Nil
  with assms show ?thesis by (simp add: open_request_def)
next
  case (snoc pre x)
  with assms show ?thesis
    by (simp add: pending_calls_append open_request_def all_answered_def)
qed

lemma open_request_results:
  "open_request ms \<Longrightarrow> run_tool_calls nm tool d (tool_calls (last ms)) = (new, d', evs) \<Longrightarrow>
   all_answered (ms @ stamp u n new)"
  by (simp add: all_answered_def pending_calls_append open_request_answered
      pending_calls_stamp run_tool_calls_answers)

section \<open>One step of the graph, node by node\<close>

lemma AIMessage_simps [simp]:
  "role (AIMessage c tcs) = AI" "content (AIMessage c tcs) = c"
  "tool_calls (AIMessage c tcs) = tcs" "msg_id (AIMessage c tcs) = None"
  "tool_call_id (AIMessage c tcs) = None"
  by (simp_all add: AIMessage_def)

lemma ToolMessage_simps [simp]:
  "role (ToolMessage c i) = Tool" "content (ToolMessage c i) = c"
  "tool_calls (ToolMessage c i) = []" "msg_id (ToolMessage c i) = None"
  "tool_call_id (ToolMessage c i) = Some i"
  by (simp_all add: ToolMessage_def)

lemma step_list_tables:
  assumes "inj (uuid4 e)" "ids_ok (uuid4 e) (draws s) (messages s)"
  shows "step e Node_list_tables s =
           (case list_tables_tool e (db s) [] of
              Raised x \<Rightarrow> Inl (ToolException x)
            | Output t \<Rightarrow>
                Inr (Node_call_get_schema,
                     \<lparr>messages = messages s @ stamp (uuid4 e) (draws s)
                        [AIMessage '''' [\<lparr>tc_name = ''sql_db_list_tables'', tc_args = [], tc_id = ''abc123''\<rparr>],
                         ToolMessage t ''abc123'',
                         AIMessage (''Available tables: '' @ t) []],
                      db = db s, draws = draws s + 3,
                      trace = trace s @ [NodeRun Node_list_tables, ToolCall ''sql_db_list_tables'' []]\<rparr>))"
  by (simp add: step_def run_node_def list_tables_def next_node_def
      apply_update_fresh [OF assms] Let_def split: tool_outcome.splits)

lemma step_call_get_schema:
  assumes "inj (uuid4 e)" "ids_ok (uuid4 e) (draws s) (messages s)"
  shows "step e Node_call_get_schema s =
           (case llm e [''sql_db_schema''] True (map without_id (messages s)) of
              Inl err \<Rightarrow> Inl err
            | Inr (c, tcs) \<Rightarrow>
                Inr (Node_get_schema,
                     \<lparr>messages = messages s @ stamp (uuid4 e) (draws s) [AIMessage c tcs],
                      db = db s, draws = draws s + 1,
                      trace = trace s @ [NodeRun Node_call_get_schema, ModelCall Node_call_get_schema]\<rparr>))"
  by (simp add: step_def run_node_def call_get_schema_def invoke_llm_def next_node_def
      apply_update_fresh [OF assms] split: sum.splits prod.splits)

lemma step_tool_node:
  fixes e :: "'db env" and s :: "'db state"
  assumes "inj (uuid4 e)" "ids_ok (uuid4 e) (draws s) (messages s)"
    "messages s \<noteq> []" "role (last (messages s)) = AI"
    "run_node e n s = ToolNode nm tool s" "n \<noteq> END" "\<And>s' :: 'db state. next_node n s' = Inr n'"
  shows "step e n s =
           (case run_tool_calls nm tool (db s) (tool_calls (last (messages s))) of
              (new, d, evs) \<Rightarrow>
                Inr (n',
                     \<lparr>messages = messages s @ stamp (uuid4 e) (draws s) new,
                      db = d, draws = draws s + length new,
                      trace = trace s @ NodeRun n # evs\<rparr>))"
proof (cases "run_tool_calls nm tool (db s) (tool_calls (last (messages s)))")
  case (fields new d evs)
  have none: "list_all (\<lambda>m. msg_id m = None) new"
    using fields by (rule run_tool_calls_no_ids)
  show ?thesis
    using assms(3-7) fields
    by (simp add: step_def ToolNode_def apply_update_fresh [OF assms(1,2) none] Let_def)
qed

lemma step_get_schema:
  assumes "inj (uuid4 e)" "ids_ok (uuid4 e) (draws s) (messages s)"
    "messages s \<noteq> []" "role (last (messages s)) = AI"
  shows "step e Node_get_schema s =
           (case run_tool_calls ''sql_db_schema'' (\<lambda>d a. (get_schema_tool e d a, d)) (db s)
                   (tool_calls (last (messages s))) of
              (new, d, evs) \<Rightarrow>
                Inr (Node_generate_query,
                     \<lparr>messages = messages s @ stamp (uuid4 e) (draws s) new,
                      db = d, draws = draws s + length new,
                      trace = trace s @ NodeRun Node_get_schema # evs\<rparr>))"
  by (rule step_tool_node [OF assms])
     (simp_all add: run_node_def get_schema_node_def next_node_def)

lemma step_run_query:
  assumes "inj (uuid4 e)" "ids_ok (uuid4 e) (draws s) (messages s)"
    "messages s \<noteq> []" "role (last (messages s)) = AI"
  shows "step e Node_run_query s =
           (case run_tool_calls ''sql_db_query'' (run_query_tool e) (db s)
                   (tool_calls (last (messages s))) of
              (new, d, evs) \<Rightarrow>
                Inr (Node_generate_query,
                     \<lparr>messages = messages s @ stamp (uuid4 e) (draws s) new,
                      db = d, draws = draws s + length new,
                      trace = trace s @ NodeRun Node_run_query # evs\<rparr>))"
  by (rule step_tool_node [OF assms])
     (simp_all add: run_node_def run_query_node_def next_node_def)

lemma step_generate_query:
  assumes "inj (uuid4 e)" "ids_ok (uuid4 e) (draws s) (messages s)"
  shows "step e Node_generate_query s =
           (case llm e [''sql_db_query''] False
                   (map without_id (SystemMessage (generate_query_system_prompt (dialect e)) # messages s)) of
              Inl err \<Rightarrow> Inl err
            | Inr (c, tcs) \<Rightarrow>
                Inr (if tcs = [] then END else Node_check_query,
                     \<lparr>messages = messages s @ stamp (uuid4 e) (draws s) [AIMessage c tcs],
                      db = db s, draws = draws s + 1,
                      trace = trace s @ [NodeRun Node_generate_query, ModelCall Node_generate_query]\<rparr>))"
  by (simp add: step_def run_node_def generate_query_def invoke_llm_def next_node_def
      should_continue_def apply_update_fresh [OF assms] Let_def split: sum.splits prod.splits)

lemma step_check_query:
  assumes "ids_ok (uuid4 e) (draws s) (messages s)" "messages s = pre @ [x]" "role x = AI"
    "tool_calls x = tool_call # rest"
  shows "step e Node_check_query s =
           (case map_of (tc_args tool_call) ''query'' of
              None \<Rightarrow> Inl (KeyError ''query'')
            | Some q \<Rightarrow>
               (case llm e [''sql_db_query''] True
                       (map without_id [SystemMessage (check_query_system_prompt (dialect e)), HumanMessage q]) of
                  Inl err \<Rightarrow> Inl err
                | Inr (c, tcs) \<Rightarrow>
                    Inr (Node_run_query,
                         \<lparr>messages = pre @ [(AIMessage c tcs)\<lparr>msg_id := msg_id x\<rparr>],
                          db = db s, draws = draws s,
                          trace = trace s @ [NodeRun Node_check_query, ModelCall Node_check_query]\<rparr>)))"
proof -
  have upd: "\<And>r d evs. msg_id r = msg_id x \<Longrightarrow>
      apply_update e Node_check_query s ([r], d, evs) =
        \<lparr>messages = pre @ [r], db = d, draws = draws s,
         trace = trace s @ NodeRun Node_check_query # evs\<rparr>"
    by (rule apply_update_replace [OF assms(1,2)])
  show ?thesis
    using assms(2-4)
    by (simp add: step_def run_node_def check_query_def invoke_llm_def next_node_def upd
        Let_def split: sum.splits prod.splits option.splits)
qed

section \<open>The invariant of the reachable states\<close>

lemma initial_state_eq:
  "initial_state e d q =
     \<lparr>messages = [(HumanMessage q)\<lparr>msg_id := Some (uuid4 e 0)\<rparr>], db = d, draws = 1, trace = []\<rparr>"
  by (simp add: initial_state_def add_messages_def merge_message_def HumanMessage_def)

lemma state_ok_initial: "state_ok e Node_list_tables (initial_state e d q)"
  by (simp add: initial_state_eq state_ok_def ids_ok_def shape_def all_answered_def
      HumanMessage_def)

lemma state_ok_ids: "state_ok e n s \<Longrightarrow> ids_ok (uuid4 e) (draws s) (messages s)"
  by (simp add: state_ok_def)

lemma state_ok_fresh:
  assumes "inj (uuid4 e)" "state_ok e n s" "shape n' (messages s @ stamp (uuid4 e) (draws s) new)"
    "k = draws s + length new"
  shows "state_ok e n'
           \<lparr>messages = messages s @ stamp (uuid4 e) (draws s) new, db = d,
            draws = k, trace = t\<rparr>"
  using assms ids_ok_fresh [OF assms(1) state_ok_ids [OF assms(2)], of new]
  by (simp add: state_ok_def)

lemma shape_list_tables:
  "all_answered ms \<Longrightarrow>
   shape Node_call_get_schema
     (ms @ stamp u n
        [AIMessage c1 [\<lparr>tc_name = nm, tc_args = a, tc_id = i\<rparr>], ToolMessage t i, AIMessage c3 []])"
  by (simp add: shape_def all_answered_def pending_calls_append pending_calls_stamp)

lemma shape_request:
  "all_answered ms \<Longrightarrow> shape Node_get_schema (ms @ stamp u n [AIMessage c tcs])"
  by (simp add: shape_def open_request_def)

lemma shape_generated:
  "all_answered ms \<Longrightarrow>
   shape (if tcs = [] then END else Node_check_query) (ms @ stamp u n [AIMessage c tcs])"
  by (simp add: shape_def open_request_def all_answered_def pending_calls_append)

lemma shape_results:
  "open_request ms \<Longrightarrow> run_tool_calls nm tool d (tool_calls (last ms)) = (new, d', evs) \<Longrightarrow>
   shape Node_generate_query (ms @ stamp u n new)"
  by (simp add: shape_def open_request_results)

lemma step_state_ok:
  assumes inj: "inj (uuid4 e)" and ok: "state_ok e n s" and st: "step e n s = Inr (n', s')"
  shows "state_ok e n' s'"
proof (cases n)
  case Node_list_tables
  from ok Node_list_tables have a: "all_answered (messages s)"
    by (simp add: state_ok_def shape_def)
  show ?thesis
    using st Node_list_tables
    by (auto simp del: stamp.simps simp: step_list_tables [OF inj state_ok_ids [OF ok]]
        split: tool_outcome.splits
        intro!: state_ok_fresh [OF inj ok] shape_list_tables [OF a])
next
  case Node_call_get_schema
  from ok Node_call_get_schema have a: "all_answered (messages s)"
    by (simp add: state_ok_def shape_def)
  show ?thesis
    using st Node_call_get_schema
    by (auto simp del: stamp.simps simp: step_call_get_schema [OF inj state_ok_ids [OF ok]]
        split: sum.splits
        intro!: state_ok_fresh [OF inj ok] shape_request [OF a])
next
  case Node_get_schema
  from ok Node_get_schema have o: "open_request (messages s)"
    by (simp add: state_ok_def shape_def)
  then have l: "messages s \<noteq> []" "role (last (messages s)) = AI"
    by (simp_all add: open_request_def)
  show ?thesis
    using st Node_get_schema
    by (auto simp del: stamp.simps simp: step_get_schema [OF inj state_ok_ids [OF ok] l]
        split: prod.splits
        intro!: state_ok_fresh [OF inj ok] shape_results [OF o])
next
  case Node_generate_query
  from ok Node_generate_query have a: "all_answered (messages s)"
    by (simp add: state_ok_def shape_def)
  from st Node_generate_query obtain c tcs where
    n': "n' = (if tcs = [] then END else Node_check_query)" and
    s': "s' = \<lparr>messages = messages s @ stamp (uuid4 e) (draws s) [AIMessage c tcs],
               db = db s, draws = draws s + 1,
               trace = trace s @ [NodeRun Node_generate_query, ModelCall Node_generate_query]\<rparr>"
    by (auto simp del: stamp.simps simp: step_generate_query [OF inj state_ok_ids [OF ok]]
        split: sum.splits)
  show ?thesis
    unfolding n' s'
    by (rule state_ok_fresh [OF inj ok shape_generated [OF a]]) simp
next
  case Node_check_query
  from ok Node_check_query have o: "open_request (messages s)"
    and tc: "tool_calls (last (messages s)) \<noteq> []"
    by (simp_all add: state_ok_def shape_def)
  from o obtain pre x where px: "messages s = pre @ [x]"
    by (cases "messages s" rule: rev_cases) (auto simp: open_request_def)
  with o have rx: "role x = AI" and ap: "all_answered pre"
    by (simp_all add: open_request_def)
  from tc px obtain tool_call rest where tcs: "tool_calls x = tool_call # rest"
    by (cases "tool_calls x") auto
  have io: "ids_ok (uuid4 e) (draws s) (pre @ [x])"
    using state_ok_ids [OF ok] px by simp
  show ?thesis
    using st Node_check_query ap ids_ok_replace_last [OF io]
    by (auto simp: step_check_query [OF state_ok_ids [OF ok] px rx tcs]
        state_ok_def shape_def open_request_def
        split: sum.splits option.splits)
next
  case Node_run_query
  from ok Node_run_query have o: "open_request (messages s)"
    by (simp add: state_ok_def shape_def)
  then have l: "messages s \<noteq> []" "role (last (messages s)) = AI"
    by (simp_all add: open_request_def)
  show ?thesis
    using st Node_run_query
    by (auto simp del: stamp.simps simp: step_run_query [OF inj state_ok_ids [OF ok] l]
        split: prod.splits
        intro!: state_ok_fresh [OF inj ok] shape_results [OF o])
next
  case END
  with st ok show ?thesis by (simp add: step_def)
qed

lemma run_steps_state_ok:
  "inj (uuid4 e) \<Longrightarrow> state_ok e n s \<Longrightarrow> run_steps e k n s = Inr (n', s') \<Longrightarrow> state_ok e n' s'"
proof (induction k arbitrary: n s)
  case 0
  then show ?case by simp
next
  case (Suc k)
  from Suc.prems(3) obtain n1 s1 where
    one: "step e n s = Inr (n1, s1)" and rest: "run_steps e k n1 s1 = Inr (n', s')"
    by (auto split: sum.splits)
  from Suc.IH [OF Suc.prems(1) step_state_ok [OF Suc.prems(1,2) one] rest] show ?case .
qed

lemma reachable_state_ok:
  "inj (uuid4 e) \<Longrightarrow> run_steps e k Node_list_tables (initial_state e d q) = Inr (n, s) \<Longrightarrow>
   state_ok e n s"
  by (rule run_steps_state_ok [OF _ state_ok_initial])

section \<open>Runs of several steps\<close>

lemma length_example_uuid4: "length (example_uuid4 n) = Suc n"
  by (induction n) simp_all

lemma inj_example_uuid4: "inj example_uuid4"
proof (rule injI)
  fix x y
  assume "example_uuid4 x = example_uuid4 y"
  then have "length (example_uuid4 x) = length (example_uuid4 y)" by simp
  then show "x = y" by (simp add: length_example_uuid4)
qed

lemma uuid4_example_env [simp]: "uuid4 (example_env model tool) = example_uuid4"
  by (simp add: example_env_def)

lemma run_graph_step:
  "n \<noteq> END \<Longrightarrow>
   run_graph e (Suc limit) n s =
     (case step e n s of Inl err \<Rightarrow> Inl err | Inr (n', s') \<Rightarrow> run_graph e limit n' s')"
  by (cases n) simp_all


lemma step_END: "step e END s = Inr (END, s)"
  by (simp add: step_def)

lemma run_steps_END: "run_steps e k END s = Inr (END, s)"
  by (induction k) (simp_all add: step_END)

lemma run_graph_after_steps:
  "run_steps e k n s = Inr (n', s') \<Longrightarrow> n' \<noteq> END \<Longrightarrow>
   run_graph e (k + limit) n s = run_graph e limit n' s'"
proof (induction k arbitrary: n s)
  case 0
  then show ?case by simp
next
  case (Suc k)
  have "n \<noteq> END"
  proof
    assume "n = END"
    with Suc.prems show False by (simp add: run_steps_END)
  qed
  with Suc show ?case
    by (auto simp: run_graph_step split: sum.splits)
qed

lemma run_graph_reaches_END:
  "run_steps e k n s = Inr (END, s') \<Longrightarrow> run_graph e (k + limit) n s = Inr s'"
proof (induction k arbitrary: n s)
  case 0
  then show ?case by simp
next
  case (Suc k)
  show ?case
  proof (cases "n = END")
    case True
    with Suc.prems show ?thesis by (simp add: run_steps_END)
  next
    case False
    with Suc show ?thesis
      by (auto simp: run_graph_step split: sum.splits)
  qed
qed

section \<open>The example conversation, step by step\<close>

lemma inj_count_env: "inj (uuid4 count_env)"
  by (simp add: count_env_def inj_example_uuid4)

lemma count_env_reaches_check:
  "run_steps count_env 4 Node_list_tables (initial_state count_env 3 ''How many orders are there?'') =
     Inr (Node_check_query,
          pending_state ''How many orders are there?'' ''SELECT COUNT(*) FROM orders'' 3)"
  by code_simp

lemma count_env_check_step:
  "step count_env Node_check_query
     (pending_state ''How many orders are there?'' ''SELECT COUNT(*) FROM orders'' 3) =
   Inr (Node_run_query,
        checked_state ''How many orders are there?'' ''SELECT COUNT(*) FROM orders'' 3)"
  by code_simp

lemma count_env_reaches_generate:
  "run_steps count_env 6 Node_list_tables (initial_state count_env 3 ''How many orders are there?'') =
     Inr (Node_generate_query,
          executed_state ''How many orders are there?'' ''SELECT COUNT(*) FROM orders'' ''[(1,)]'' 3)"
  by code_simp

lemma count_env_reaches_run:
  "run_steps count_env 5 Node_list_tables (initial_state count_env 3 ''How many orders are there?'') =
     Inr (Node_run_query, checked_state ''How many orders are there?'' ''SELECT COUNT(*) FROM orders'' 3)"
  by code_simp

lemma count_env_run_step:
  "step count_env Node_run_query (checked_state ''How many orders are there?'' ''SELECT COUNT(*) FROM orders'' 3) =
     Inr (Node_generate_query, executed_state ''How many orders are there?'' ''SELECT COUNT(*) FROM orders'' ''[(1,)]'' 3)"
  by code_simp

lemma count_env_reaches_END:
  "run_steps count_env 7 Node_list_tables (initial_state count_env 3 ''How many orders are there?'') =
     Inr (END, answered_state ''How many orders are there?'' ''SELECT COUNT(*) FROM orders'' ''[(1,)]'' 3)"
  by code_simp

section \<open>The data source along a run\<close>

lemma execute_all_Cons:
  "execute_all e d (a # qs) = execute_all e (snd (run_query_tool e d a)) qs"
  by (simp add: execute_all_def)

lemma run_tool_calls_nth:
  "run_tool_calls ''sql_db_query'' (run_query_tool e) d cs = (new, d', evs) \<Longrightarrow> i < length cs \<Longrightarrow>
   new ! i =
     ToolMessage
       (if tc_name (cs ! i) = ''sql_db_query'' then
          outcome_content (fst (run_query_tool e
            (execute_all e d
               (map tc_args (filter (\<lambda>c. tc_name c = ''sql_db_query'') (take i cs))))
            (tc_args (cs ! i))))
        else invalid_tool_text (tc_name (cs ! i)) ''sql_db_query'')
       (tc_id (cs ! i))"
proof (induction cs arbitrary: d new d' evs i)
  case Nil
  then show ?case by simp
next
  case (Cons c cs)
  show ?case
  proof (cases i)
    case 0
    with Cons.prems show ?thesis
      by (auto simp: execute_all_def split: prod.splits if_splits)
  next
    case (Suc j)
    with Cons.prems have j: "j < length cs" by simp
    show ?thesis
    proof (cases "tc_name c = ''sql_db_query''")
      case True
      obtain out d1 where t: "run_query_tool e d (tc_args c) = (out, d1)"
        by (cases "run_query_tool e d (tc_args c)")
      obtain ms d2 evs2 where
        r: "run_tool_calls ''sql_db_query'' (run_query_tool e) d1 cs = (ms, d2, evs2)"
        by (cases "run_tool_calls ''sql_db_query'' (run_query_tool e) d1 cs")
      from Cons.prems(1) True t r have n: "new = ToolMessage (outcome_content out) (tc_id c) # ms"
        by auto
      from Cons.IH [OF r j] n Suc True t show ?thesis
        by (simp add: execute_all_Cons)
    next
      case False
      obtain ms d2 evs2 where
        r: "run_tool_calls ''sql_db_query'' (run_query_tool e) d cs = (ms, d2, evs2)"
        by (cases "run_tool_calls ''sql_db_query'' (run_query_tool e) d cs")
      from Cons.prems(1) False r
      have n: "new = ToolMessage (invalid_tool_text (tc_name c) ''sql_db_query'') (tc_id c) # ms"
        by auto
      from Cons.IH [OF r j] n Suc False show ?thesis
        by simp
    qed
  qed
qed

lemma queries_run_append: "queries_run (xs @ ys) = queries_run xs @ queries_run ys"
  by (induction xs rule: queries_run.induct) simp_all

lemma execute_all_append: "execute_all e d (xs @ ys) = execute_all e (execute_all e d xs) ys"
  by (simp add: execute_all_def)

lemma execute_all_read_only:
  "\<forall>d a. snd (run_query_tool e d a) = d \<Longrightarrow> execute_all e d qs = d"
  by (induction qs) (simp_all add: execute_all_def)

lemma run_tool_calls_query_db:
  "run_tool_calls ''sql_db_query'' (run_query_tool e) d cs = (ms, d', evs) \<Longrightarrow>
   d' = execute_all e d (queries_run evs)"
  by (induction cs arbitrary: d ms d' evs)
     (auto simp: execute_all_def split: prod.splits if_splits)

lemma run_tool_calls_schema_db:
  "run_tool_calls ''sql_db_schema'' (\<lambda>d a. (tool d a, d)) d cs = (ms, d', evs) \<Longrightarrow>
   d' = d \<and> queries_run evs = []"
  by (induction cs arbitrary: d ms d' evs)
     (auto split: prod.splits if_splits)

lemma run_node_db:
  assumes "run_node e n s = Inr (new, d', evs)"
  shows "d' = execute_all e (db s) (queries_run evs)"
proof (cases n)
  case Node_get_schema
  with assms show ?thesis
    by (auto simp: run_node_def get_schema_node_def ToolNode_def execute_all_def
        split: if_splits dest: run_tool_calls_schema_db)
next
  case Node_run_query
  with assms show ?thesis
    by (auto simp: run_node_def run_query_node_def ToolNode_def
        split: if_splits dest: run_tool_calls_query_db)
qed (use assms in \<open>auto simp: run_node_def list_tables_def call_get_schema_def generate_query_def
      check_query_def execute_all_def Let_def
      split: tool_outcome.splits sum.splits if_splits list.splits option.splits\<close>)

lemma step_db:
  assumes "step e n s = Inr (n', s')"
  shows "\<exists>evs. trace s' = trace s @ evs \<and> db s' = execute_all e (db s) (queries_run evs)"
proof (cases "n = END")
  case True
  with assms show ?thesis by (simp add: step_def execute_all_def)
next
  case False
  with assms obtain new d' evs where
    r: "run_node e n s = Inr (new, d', evs)" and s': "s' = apply_update e n s (new, d', evs)"
    by (auto simp: step_def Let_def split: sum.splits)
  from s' have "trace s' = trace s @ NodeRun n # evs" "db s' = d'"
    by (simp_all add: apply_update_def split: prod.splits)
  with run_node_db [OF r] show ?thesis
    by simp
qed

lemma run_steps_db:
  "run_steps e k n s = Inr (n', s') \<Longrightarrow>
   \<exists>evs. trace s' = trace s @ evs \<and> db s' = execute_all e (db s) (queries_run evs)"
proof (induction k arbitrary: n s)
  case 0
  then show ?case by (simp add: execute_all_def)
next
  case (Suc k)
  from Suc.prems obtain n1 s1 where
    one: "step e n s = Inr (n1, s1)" and rest: "run_steps e k n1 s1 = Inr (n', s')"
    by (auto split: sum.splits)
  from step_db [OF one] obtain evs1 where
    a: "trace s1 = trace s @ evs1" "db s1 = execute_all e (db s) (queries_run evs1)"
    by blast
  from Suc.IH [OF rest] obtain evs2 where
    b: "trace s' = trace s1 @ evs2" "db s' = execute_all e (db s1) (queries_run evs2)"
    by blast
  from a b have "trace s' = trace s @ (evs1 @ evs2) \<and>
      db s' = execute_all e (db s) (queries_run (evs1 @ evs2))"
    by (simp add: queries_run_append execute_all_append)
  then show ?case by blast
qed

lemma run_tool_calls_queries:
  "run_tool_calls ''sql_db_query'' tool d cs = (new, d', evs) \<Longrightarrow>
   queries_run evs = map tc_args (filter (\<lambda>c. tc_name c = ''sql_db_query'') cs)"
  by (induction cs arbitrary: d new d' evs) (auto split: prod.splits if_splits)

section \<open>The order of the nodes in the log\<close>

lemma nodes_run_append: "nodes_run (xs @ ys) = nodes_run xs @ nodes_run ys"
  by (induction xs rule: nodes_run.induct) simp_all

lemma run_tool_calls_event_names:
  "run_tool_calls nm tool d cs = (ms, d', evs) \<Longrightarrow> ev \<in> set evs \<Longrightarrow> \<exists>a. ev = ToolCall nm a"
  by (induction cs arbitrary: d ms d' evs) (auto split: prod.splits if_splits)

lemma run_node_events:
  assumes "run_node e n s = Inr (new, d', evs)"
  shows "nodes_run evs = [] \<and>
         (n = Node_generate_query \<longrightarrow> evs = [ModelCall Node_generate_query]) \<and>
         (n \<noteq> Node_generate_query \<longrightarrow> ModelCall Node_generate_query \<notin> set evs) \<and>
         (n = Node_list_tables \<longrightarrow> evs = [ToolCall ''sql_db_list_tables'' []]) \<and>
         (n \<noteq> Node_list_tables \<longrightarrow> ToolCall ''sql_db_list_tables'' [] \<notin> set evs)"
proof (cases n)
  case Node_get_schema
  with assms have r: "run_tool_calls ''sql_db_schema'' (\<lambda>d a. (get_schema_tool e d a, d)) (db s)
      (tool_calls (last (messages s))) = (new, d', evs)"
    by (auto simp: run_node_def get_schema_node_def ToolNode_def split: if_splits)
  from run_tool_calls_events [OF r] run_tool_calls_event_names [OF r] Node_get_schema
  show ?thesis by auto
next
  case Node_run_query
  with assms have r: "run_tool_calls ''sql_db_query'' (run_query_tool e) (db s)
      (tool_calls (last (messages s))) = (new, d', evs)"
    by (auto simp: run_node_def run_query_node_def ToolNode_def split: if_splits)
  from run_tool_calls_events [OF r] run_tool_calls_event_names [OF r] Node_run_query
  show ?thesis by auto
qed (use assms in \<open>auto simp: run_node_def list_tables_def call_get_schema_def generate_query_def
      check_query_def Let_def
      split: tool_outcome.splits sum.splits if_splits list.splits option.splits\<close>)

lemma step_trace:
  assumes "step e n s = Inr (n', s')" "n \<noteq> END"
  shows "\<exists>evs. trace s' = trace s @ NodeRun n # evs \<and> nodes_run evs = [] \<and>
           (n = Node_generate_query \<longrightarrow> evs = [ModelCall Node_generate_query]) \<and>
           (n \<noteq> Node_generate_query \<longrightarrow> ModelCall Node_generate_query \<notin> set evs) \<and>
           (n = Node_list_tables \<longrightarrow> evs = [ToolCall ''sql_db_list_tables'' []]) \<and>
           (n \<noteq> Node_list_tables \<longrightarrow> ToolCall ''sql_db_list_tables'' [] \<notin> set evs)"
proof -
  from assms obtain new d' evs where
    r: "run_node e n s = Inr (new, d', evs)" and s': "s' = apply_update e n s (new, d', evs)"
    by (auto simp: step_def Let_def split: sum.splits)
  from s' have "trace s' = trace s @ NodeRun n # evs"
    by (simp add: apply_update_def split: prod.splits)
  with run_node_events [OF r] show ?thesis
    by blast
qed

lemma step_edge:
  assumes "step e n s = Inr (n', s')"
  shows "n' = (case n of
                 Node_list_tables \<Rightarrow> Node_call_get_schema
               | Node_call_get_schema \<Rightarrow> Node_get_schema
               | Node_get_schema \<Rightarrow> Node_generate_query
               | Node_generate_query \<Rightarrow> n'
               | Node_check_query \<Rightarrow> Node_run_query
               | Node_run_query \<Rightarrow> Node_generate_query
               | END \<Rightarrow> END) \<and>
         (n = Node_generate_query \<longrightarrow> n' = END \<or> n' = Node_check_query)"
  using assms
  by (cases n)
     (auto simp: step_def next_node_def should_continue_def Let_def split: sum.splits if_splits)

lemma run_steps_add:
  "run_steps e (a + b) n s =
     (case run_steps e a n s of Inl err \<Rightarrow> Inl err | Inr (n1, s1) \<Rightarrow> run_steps e b n1 s1)"
  by (induction a arbitrary: n s) (auto split: sum.splits)

lemma step_from_list_tables:
  assumes "step e Node_list_tables s0 = Inr (n, s)"
  shows "n = Node_call_get_schema \<and>
         trace s = trace s0 @ [NodeRun Node_list_tables, ToolCall ''sql_db_list_tables'' []]"
proof -
  from step_trace [OF assms] obtain evs where
    "trace s = trace s0 @ NodeRun Node_list_tables # evs" "evs = [ToolCall ''sql_db_list_tables'' []]"
    by auto
  with step_edge [OF assms] show ?thesis by simp
qed

lemma step_from_setup:
  assumes "step e n1 s1 = Inr (n, s)" "n1 = Node_call_get_schema \<or> n1 = Node_get_schema"
  shows "n = (if n1 = Node_call_get_schema then Node_get_schema else Node_generate_query) \<and>
         nodes_run (trace s) = nodes_run (trace s1) @ [n1] \<and>
         (ModelCall Node_generate_query \<in> set (trace s) \<longleftrightarrow>
            ModelCall Node_generate_query \<in> set (trace s1)) \<and>
         count_list (trace s) (ToolCall ''sql_db_list_tables'' []) =
           count_list (trace s1) (ToolCall ''sql_db_list_tables'' [])"
proof -
  from assms(2) have ne: "n1 \<noteq> END" "n1 \<noteq> Node_generate_query" "n1 \<noteq> Node_list_tables"
    by auto
  from step_trace [OF assms(1) ne(1)] ne obtain evs where
    t: "trace s = trace s1 @ NodeRun n1 # evs" "nodes_run evs = []"
      "ModelCall Node_generate_query \<notin> set evs" "ToolCall ''sql_db_list_tables'' [] \<notin> set evs"
    by auto
  from step_edge [OF assms(1)] assms(2)
  have "n = (if n1 = Node_call_get_schema then Node_get_schema else Node_generate_query)"
    by auto
  with t show ?thesis
    by (auto simp: nodes_run_append count_list_0_iff)
qed

lemma setup_one:
  assumes "run_steps e 1 Node_list_tables s0 = Inr (n, s)" "trace s0 = []"
  shows "n = Node_call_get_schema \<and> nodes_run (trace s) = [Node_list_tables] \<and>
         ModelCall Node_generate_query \<notin> set (trace s) \<and>
         count_list (trace s) (ToolCall ''sql_db_list_tables'' []) = 1"
proof -
  from assms(1) have one: "step e Node_list_tables s0 = Inr (n, s)"
    by (simp split: sum.splits prod.splits)
  from step_from_list_tables [OF one] assms(2) show ?thesis
    by simp
qed

lemma setup_two:
  assumes "run_steps e 2 Node_list_tables s0 = Inr (n, s)" "trace s0 = []"
  shows "n = Node_get_schema \<and> nodes_run (trace s) = [Node_list_tables, Node_call_get_schema] \<and>
         ModelCall Node_generate_query \<notin> set (trace s) \<and>
         count_list (trace s) (ToolCall ''sql_db_list_tables'' []) = 1"
proof -
  have "(2::nat) = 1 + 1" by simp
  then have "run_steps e (1 + 1) Node_list_tables s0 = Inr (n, s)"
    using assms(1) by (simp only:)
  then obtain n1 s1 where
    a: "run_steps e 1 Node_list_tables s0 = Inr (n1, s1)" and b: "run_steps e 1 n1 s1 = Inr (n, s)"
    unfolding run_steps_add by (cases "run_steps e 1 Node_list_tables s0") auto
  from b have one: "step e n1 s1 = Inr (n, s)"
    by (simp split: sum.splits prod.splits)
  from setup_one [OF a assms(2)] step_from_setup [OF one] show ?thesis
    by simp
qed

lemma setup_three:
  assumes "run_steps e 3 Node_list_tables s0 = Inr (n, s)" "trace s0 = []"
  shows "n = Node_generate_query \<and>
         nodes_run (trace s) = [Node_list_tables, Node_call_get_schema, Node_get_schema] \<and>
         ModelCall Node_generate_query \<notin> set (trace s) \<and>
         count_list (trace s) (ToolCall ''sql_db_list_tables'' []) = 1"
proof -
  have "(3::nat) = 2 + 1" by simp
  then have "run_steps e (2 + 1) Node_list_tables s0 = Inr (n, s)"
    using assms(1) by (simp only:)
  then obtain n1 s1 where
    a: "run_steps e 2 Node_list_tables s0 = Inr (n1, s1)" and b: "run_steps e 1 n1 s1 = Inr (n, s)"
    unfolding run_steps_add by (cases "run_steps e 2 Node_list_tables s0") auto
  from b have one: "step e n1 s1 = Inr (n, s)"
    by (simp split: sum.splits prod.splits)
  from setup_two [OF a assms(2)] step_from_setup [OF one] show ?thesis
    by simp
qed

lemma step_in_loop:
  assumes "step e n s = Inr (n1, s1)"
    and "n = Node_generate_query \<or> n = Node_check_query \<or> n = Node_run_query"
  shows "(n1 = Node_generate_query \<or> n1 = Node_check_query \<or> n1 = Node_run_query \<or> n1 = END) \<and>
         (\<exists>evs. trace s1 = trace s @ NodeRun n # evs \<and> nodes_run evs = [] \<and>
            ToolCall ''sql_db_list_tables'' [] \<notin> set evs)"
proof -
  from assms(2) have ne: "n \<noteq> END" "n \<noteq> Node_list_tables"
    by auto
  from step_trace [OF assms(1) ne(1)] ne(2) obtain evs where
    t: "trace s1 = trace s @ NodeRun n # evs" "nodes_run evs = []"
      "ToolCall ''sql_db_list_tables'' [] \<notin> set evs"
    by auto
  from step_edge [OF assms(1)] assms(2)
  have "n1 = Node_generate_query \<or> n1 = Node_check_query \<or> n1 = Node_run_query \<or> n1 = END"
    by auto
  with t show ?thesis by blast
qed

lemma loop_closed:
  assumes "run_steps e j n s = Inr (n', s')"
    and "n = Node_generate_query \<or> n = Node_check_query \<or> n = Node_run_query \<or> n = END"
  shows "(n' = Node_generate_query \<or> n' = Node_check_query \<or> n' = Node_run_query \<or> n' = END) \<and>
         (\<exists>rest. trace s' = trace s @ rest \<and>
            set (nodes_run rest) \<subseteq> {Node_generate_query, Node_check_query, Node_run_query} \<and>
            ToolCall ''sql_db_list_tables'' [] \<notin> set rest)"
  using assms
proof (induction j arbitrary: n s)
  case 0
  then show ?case by simp
next
  case (Suc j)
  show ?case
  proof (cases "n = END")
    case True
    with Suc.prems(1) show ?thesis by (simp add: run_steps_END)
  next
    case False
    from Suc.prems(1) obtain n1 s1 where
      one: "step e n s = Inr (n1, s1)" and more: "run_steps e j n1 s1 = Inr (n', s')"
      by (cases "step e n s") auto
    from False Suc.prems(2)
    have loop: "n = Node_generate_query \<or> n = Node_check_query \<or> n = Node_run_query"
      by simp
    from step_in_loop [OF one loop] obtain evs where
      n1: "n1 = Node_generate_query \<or> n1 = Node_check_query \<or> n1 = Node_run_query \<or> n1 = END" and
      t1: "trace s1 = trace s @ NodeRun n # evs" "nodes_run evs = []"
        "ToolCall ''sql_db_list_tables'' [] \<notin> set evs"
      by blast
    from Suc.IH [OF more n1] obtain rest where
      r: "n' = Node_generate_query \<or> n' = Node_check_query \<or> n' = Node_run_query \<or> n' = END"
        "trace s' = trace s1 @ rest"
        "set (nodes_run rest) \<subseteq> {Node_generate_query, Node_check_query, Node_run_query}"
        "ToolCall ''sql_db_list_tables'' [] \<notin> set rest"
      by blast
    have a: "trace s' = trace s @ (NodeRun n # evs @ rest)"
      using t1(1) r(2) by simp
    have b: "set (nodes_run (NodeRun n # evs @ rest)) \<subseteq>
            {Node_generate_query, Node_check_query, Node_run_query}"
      using t1(2) r(3) loop by (auto simp: nodes_run_append)
    have c: "ToolCall ''sql_db_list_tables'' [] \<notin> set (NodeRun n # evs @ rest)"
      using t1(3) r(4) by simp
    from r(1) a b c show ?thesis by blast
  qed
qed

lemma setup_then_loop:
  assumes "run_steps e (3 + Suc j) Node_list_tables s0 = Inr (n, s)" "trace s0 = []"
  shows "(n = Node_generate_query \<or> n = Node_check_query \<or> n = Node_run_query \<or> n = END) \<and>
         (\<exists>t3 rest. trace s = t3 @ NodeRun Node_generate_query # ModelCall Node_generate_query # rest \<and>
            nodes_run t3 = [Node_list_tables, Node_call_get_schema, Node_get_schema] \<and>
            ModelCall Node_generate_query \<notin> set t3 \<and>
            count_list t3 (ToolCall ''sql_db_list_tables'' []) = 1 \<and>
            set (nodes_run rest) \<subseteq> {Node_generate_query, Node_check_query, Node_run_query} \<and>
            ToolCall ''sql_db_list_tables'' [] \<notin> set rest)"
proof -
  from assms(1) obtain n3 s3 where
    a: "run_steps e 3 Node_list_tables s0 = Inr (n3, s3)" and
    b: "run_steps e (Suc j) n3 s3 = Inr (n, s)"
    unfolding run_steps_add by (cases "run_steps e 3 Node_list_tables s0") auto
  from setup_three [OF a assms(2)] have
    c: "n3 = Node_generate_query"
      "nodes_run (trace s3) = [Node_list_tables, Node_call_get_schema, Node_get_schema]"
      "ModelCall Node_generate_query \<notin> set (trace s3)"
      "count_list (trace s3) (ToolCall ''sql_db_list_tables'' []) = 1"
    by simp_all
  from b obtain n4 s4 where
    one: "step e n3 s3 = Inr (n4, s4)" and more: "run_steps e j n4 s4 = Inr (n, s)"
    by (cases "step e n3 s3") auto
  from step_edge [OF one] c(1)
  have n4: "n4 = Node_generate_query \<or> n4 = Node_check_query \<or> n4 = Node_run_query \<or> n4 = END"
    by auto
  from step_trace [OF one] c(1) have
    t4: "trace s4 = trace s3 @ [NodeRun Node_generate_query, ModelCall Node_generate_query]"
    by auto
  from loop_closed [OF more n4] obtain rest where
    r: "n = Node_generate_query \<or> n = Node_check_query \<or> n = Node_run_query \<or> n = END"
      "trace s = trace s4 @ rest"
      "set (nodes_run rest) \<subseteq> {Node_generate_query, Node_check_query, Node_run_query}"
      "ToolCall ''sql_db_list_tables'' [] \<notin> set rest"
    by blast
  from r(2) t4 have
    t: "trace s = trace s3 @ NodeRun Node_generate_query # ModelCall Node_generate_query # rest"
    by simp
  from r(1) t c(2-4) r(3,4) show ?thesis
    by blast
qed

lemma trace_initial_state: "trace (initial_state e d q) = []"
  by (simp add: initial_state_eq)

lemma loop_nodes_count:
  assumes "set ns \<subseteq> {Node_generate_query, Node_check_query, Node_run_query}"
  shows "count_list ns Node_list_tables = 0 \<and> count_list ns Node_get_schema = 0"
  using assms by (auto simp: count_list_0_iff)

section \<open>The first step: listing the tables\<close>

text \<open>
  Claim C9. The initial node \<open>list_tables\<close> runs the table-listing tool without calling the
  model (the log of the step holds the node and the tool call only) and appends exactly
  three messages to the history: the tool-call request, the tool result and the summary
  \<open>Available tables: ...\<close> that repeats the tool's list of names. This is what the step
  does whenever the tool returns its list; identifiers are fresh (\<open>uuid4\<close> never repeats).
\<close>

theorem list_tables_appends_three:
  assumes "inj (uuid4 e)" "list_tables_tool e d [] = Output t"
  shows "step e Node_list_tables (initial_state e d q) =
           Inr (Node_call_get_schema,
                \<lparr>messages =
                   messages (initial_state e d q) @
                   [(AIMessage [] [\<lparr>tc_name = ''sql_db_list_tables'', tc_args = [],
                                    tc_id = ''abc123''\<rparr>])\<lparr>msg_id := Some (uuid4 e 1)\<rparr>,
                    (ToolMessage t ''abc123'')\<lparr>msg_id := Some (uuid4 e 2)\<rparr>,
                    (AIMessage (''Available tables: '' @ t) [])\<lparr>msg_id := Some (uuid4 e 3)\<rparr>],
                 db = d, draws = 4,
                 trace = [NodeRun Node_list_tables, ToolCall ''sql_db_list_tables'' []]\<rparr>)"
proof -
  have ok: "ids_ok (uuid4 e) (draws (initial_state e d q)) (messages (initial_state e d q))"
    by (rule state_ok_ids [OF state_ok_initial])
  show ?thesis
    unfolding step_list_tables [OF assms(1) ok]
    using assms(2) by (simp add: initial_state_eq numeral_eq_Suc)
qed

text \<open>The claim at a data source with the one table \<open>orders\<close>.\<close>

theorem list_tables_appends_three_witness:
  "inj (uuid4 (example_env (example_llm ''SELECT 1'') reading_tool)) \<and>
   list_tables_tool (example_env (example_llm ''SELECT 1'') reading_tool) 3 [] = Output ''orders'' \<and>
   step (example_env (example_llm ''SELECT 1'') reading_tool) Node_list_tables
     (initial_state (example_env (example_llm ''SELECT 1'') reading_tool) 3 ''Which tables are there?'') =
     Inr (Node_call_get_schema,
          \<lparr>messages =
             [(HumanMessage ''Which tables are there?'')\<lparr>msg_id := Some ''u''\<rparr>,
              (AIMessage [] [\<lparr>tc_name = ''sql_db_list_tables'', tc_args = [],
                              tc_id = ''abc123''\<rparr>])\<lparr>msg_id := Some ''uu''\<rparr>,
              (ToolMessage ''orders'' ''abc123'')\<lparr>msg_id := Some ''uuu''\<rparr>,
              (AIMessage ''Available tables: orders'' [])\<lparr>msg_id := Some ''uuuu''\<rparr>],
           db = 3, draws = 4,
           trace = [NodeRun Node_list_tables, ToolCall ''sql_db_list_tables'' []]\<rparr>)"
proof -
  have i: "inj (uuid4 (example_env (example_llm ''SELECT 1'') reading_tool))"
    by (simp add: inj_example_uuid4)
  have l: "list_tables_tool (example_env (example_llm ''SELECT 1'') reading_tool) 3 [] = Output ''orders''"
    by (simp add: example_env_def)
  show ?thesis
    using i l list_tables_appends_three [OF i l, of "''Which tables are there?''"]
    by (simp add: initial_state_eq numeral_eq_Suc)
qed

section \<open>What reaches the data source\<close>

text \<open>
  Claim C1. No node of the graph looks at the statement it is asked to execute. In every
  state of a conversation the data source is the one the conversation started on with the
  query tool run, in the order of the log, on the arguments of every \<open>sql_db_query\<close> call
  logged so far. At \<open>run_query\<close> the step cannot fail and it logs, and so runs, every
  \<open>sql_db_query\<close> call of the request, whatever its statement. The data source is therefore
  the same before and after when the query tool changes nothing, and a state reached at the
  end is what \<open>invoke\<close> returns.
\<close>

theorem queries_are_executed_unfiltered:
  assumes inj: "inj (uuid4 e)"
    and reach: "run_steps e k Node_list_tables (initial_state e d q) = Inr (n, s)"
  shows "db s = execute_all e d (queries_run (trace s)) \<and>
         ((\<forall>d' a. snd (run_query_tool e d' a) = d') \<longrightarrow> db s = d) \<and>
         (n = Node_run_query \<longrightarrow>
            (case step e Node_run_query s of
               Inl err \<Rightarrow> False
             | Inr (n', s') \<Rightarrow>
                 n' = Node_generate_query \<and>
                 queries_run (trace s') =
                   queries_run (trace s) @
                   map tc_args
                     (filter (\<lambda>c. tc_name c = ''sql_db_query'') (tool_calls (last (messages s)))) \<and>
                 db s' = execute_all e d (queries_run (trace s')))) \<and>
         (n = END \<longrightarrow> invoke e (k + limit) d q = Inr s)"
proof -
  from run_steps_db [OF reach] have a: "db s = execute_all e d (queries_run (trace s))"
    by (auto simp: initial_state_eq)
  then have b: "(\<forall>d' a. snd (run_query_tool e d' a) = d') \<longrightarrow> db s = d"
    by (auto simp: execute_all_read_only)
  have c: "case step e Node_run_query s of
               Inl err \<Rightarrow> False
             | Inr (n', s') \<Rightarrow>
                 n' = Node_generate_query \<and>
                 queries_run (trace s') =
                   queries_run (trace s) @
                   map tc_args
                     (filter (\<lambda>c. tc_name c = ''sql_db_query'') (tool_calls (last (messages s)))) \<and>
                 db s' = execute_all e d (queries_run (trace s'))"
    if n: "n = Node_run_query"
  proof -
    have ok: "state_ok e Node_run_query s"
      using reachable_state_ok [OF inj reach] n by simp
    then have "open_request (messages s)"
      by (simp add: state_ok_def shape_def)
    then have l: "messages s \<noteq> []" "role (last (messages s)) = AI"
      by (simp_all add: open_request_def)
    obtain new d' evs where
      r: "run_tool_calls ''sql_db_query'' (run_query_tool e) (db s) (tool_calls (last (messages s))) =
            (new, d', evs)"
      by (cases "run_tool_calls ''sql_db_query'' (run_query_tool e) (db s)
                   (tool_calls (last (messages s)))")
    have d': "d' = execute_all e (db s) (queries_run evs)"
      by (rule run_tool_calls_query_db [OF r])
    show ?thesis
      unfolding step_run_query [OF inj state_ok_ids [OF ok] l] r
      using run_tool_calls_queries [OF r] d' a
      by (simp add: queries_run_append execute_all_append)
  qed
  have e: "invoke e (k + limit) d q = Inr s" if "n = END"
    using run_graph_reaches_END [of e k Node_list_tables "initial_state e d q" s limit] reach that
    by (simp add: invoke_def)
  from a b c e show ?thesis
    by blast
qed


text \<open>The conversation about the number of orders, whose query tool only reads.\<close>

theorem queries_are_executed_unfiltered_witness:
  "inj (uuid4 count_env) \<and>
   (\<forall>d' a. snd (run_query_tool count_env d' a) = d') \<and>
   run_steps count_env 5 Node_list_tables (initial_state count_env 3 ''How many orders are there?'') =
     Inr (Node_run_query, checked_state ''How many orders are there?'' ''SELECT COUNT(*) FROM orders'' 3) \<and>
   step count_env Node_run_query (checked_state ''How many orders are there?'' ''SELECT COUNT(*) FROM orders'' 3) =
     Inr (Node_generate_query, executed_state ''How many orders are there?'' ''SELECT COUNT(*) FROM orders'' ''[(1,)]'' 3) \<and>
   queries_run (trace (executed_state ''How many orders are there?'' ''SELECT COUNT(*) FROM orders'' ''[(1,)]'' 3)) =
     [[(''query'', ''SELECT COUNT(*) FROM orders'')]] \<and>
   run_steps count_env 7 Node_list_tables (initial_state count_env 3 ''How many orders are there?'') =
     Inr (END, answered_state ''How many orders are there?'' ''SELECT COUNT(*) FROM orders'' ''[(1,)]'' 3) \<and>
   invoke count_env 7 3 ''How many orders are there?'' =
     Inr (answered_state ''How many orders are there?'' ''SELECT COUNT(*) FROM orders'' ''[(1,)]'' 3) \<and>
   db (answered_state ''How many orders are there?'' ''SELECT COUNT(*) FROM orders'' ''[(1,)]'' 3) = 3"
proof -
  have r: "\<forall>d' a. snd (run_query_tool count_env d' a) = d'"
    by (simp add: count_env_def example_env_def reading_tool_def)
  have t: "queries_run (trace (checked_state ''How many orders are there?'' ''SELECT COUNT(*) FROM orders'' 3)) @
           map tc_args
             (filter (\<lambda>c. tc_name c = ''sql_db_query'')
                (tool_calls (last (messages (checked_state ''How many orders are there?'' ''SELECT COUNT(*) FROM orders'' 3))))) =
           [[(''query'', ''SELECT COUNT(*) FROM orders'')]]"
    by code_simp
  from queries_are_executed_unfiltered [OF inj_count_env count_env_reaches_run]
  have "queries_run (trace (executed_state ''How many orders are there?'' ''SELECT COUNT(*) FROM orders'' ''[(1,)]'' 3)) =
     [[(''query'', ''SELECT COUNT(*) FROM orders'')]]"
    unfolding count_env_run_step t by simp
  moreover from queries_are_executed_unfiltered [OF inj_count_env count_env_reaches_END, of 0] r
  have "invoke count_env 7 3 ''How many orders are there?'' =
     Inr (answered_state ''How many orders are there?'' ''SELECT COUNT(*) FROM orders'' ''[(1,)]'' 3) \<and>
     db (answered_state ''How many orders are there?'' ''SELECT COUNT(*) FROM orders'' ''[(1,)]'' 3) = 3"
    by simp
  ultimately show ?thesis
    using inj_count_env r count_env_reaches_run count_env_run_step count_env_reaches_END
    by simp
qed

text \<open>
  Nothing rejects a \<open>DELETE\<close>. The model that asks for one gets it executed: the tool
  message carries the tool's output and no error, and the table that had three rows has
  none when the run returns.
\<close>

theorem delete_is_executed_counterexample:
  "run_steps delete_env 5 Node_list_tables (initial_state delete_env 3 ''Remove all orders'') =
     Inr (Node_run_query, checked_state ''Remove all orders'' ''DELETE FROM orders'' 3) \<and>
   step delete_env Node_run_query (checked_state ''Remove all orders'' ''DELETE FROM orders'' 3) =
     Inr (Node_generate_query,
          executed_state ''Remove all orders'' ''DELETE FROM orders'' [] 0) \<and>
   last (messages (executed_state ''Remove all orders'' ''DELETE FROM orders'' [] 0)) =
     (ToolMessage [] ''call_B'')\<lparr>msg_id := Some ''uuuuuuuu''\<rparr> \<and>
   invoke delete_env 7 3 ''Remove all orders'' =
     Inr (answered_state ''Remove all orders'' ''DELETE FROM orders'' [] 0) \<and>
   queries_run (trace (answered_state ''Remove all orders'' ''DELETE FROM orders'' [] 0)) =
     [[(''query'', ''DELETE FROM orders'')]] \<and>
   db (initial_state delete_env 3 ''Remove all orders'') = 3 \<and>
   db (answered_state ''Remove all orders'' ''DELETE FROM orders'' [] 0) = 0"
  by code_simp

section \<open>A response without tool calls ends the run\<close>

lemma step_generate_query_answer:
  assumes "inj (uuid4 e)" "state_ok e Node_generate_query s"
    "llm e [''sql_db_query''] False
       (map without_id (SystemMessage (generate_query_system_prompt (dialect e)) # messages s)) =
     Inr (c, [])"
  shows "step e Node_generate_query s =
           Inr (END,
                \<lparr>messages = messages s @ [(AIMessage c [])\<lparr>msg_id := Some (uuid4 e (draws s))\<rparr>],
                 db = db s, draws = Suc (draws s),
                 trace = trace s @ [NodeRun Node_generate_query, ModelCall Node_generate_query]\<rparr>)"
  unfolding step_generate_query [OF assms(1) state_ok_ids [OF assms(2)]]
  using assms(3) by simp

text \<open>
  Claim C3. Whenever the control is at \<open>generate_query\<close> in a conversation (a state reached
  from a fresh conversation in \<open>k\<close> steps) and the model's response has no tool call, the run
  ends there: the only event after that state is this one model call, the response is the
  last message of the final history, and its text is the \<open>result\<close> the endpoint returns.
  The runner must allow the step: its limit is more than \<open>k\<close>.
\<close>

theorem answer_ends_the_loop:
  assumes "inj (uuid4 e)"
    and "run_steps e k Node_list_tables (initial_state e d q) = Inr (Node_generate_query, s)"
    and "llm e [''sql_db_query''] False
           (map without_id (SystemMessage (generate_query_system_prompt (dialect e)) # messages s)) =
         Inr (c, [])"
    and "active_databases (session_id request) = Some d" and "query request = q"
  shows "invoke e (k + Suc limit) d q =
           Inr \<lparr>messages = messages s @ [(AIMessage c [])\<lparr>msg_id := Some (uuid4 e (draws s))\<rparr>],
                db = db s, draws = Suc (draws s),
                trace = trace s @ [NodeRun Node_generate_query, ModelCall Node_generate_query]\<rparr> \<and>
         query_database e (k + Suc limit) active_databases request =
           Inr \<lparr>result = c,
                sql_query = extract_sql_query (messages s),
                response_session_id = session_id request\<rparr>"
proof -
  let ?s' = "\<lparr>messages = messages s @ [(AIMessage c [])\<lparr>msg_id := Some (uuid4 e (draws s))\<rparr>],
              db = db s, draws = Suc (draws s),
              trace = trace s @ [NodeRun Node_generate_query, ModelCall Node_generate_query]\<rparr>"
  have ok: "state_ok e Node_generate_query s"
    by (rule reachable_state_ok [OF assms(1,2)])
  have "run_graph e (Suc limit) Node_generate_query s = Inr ?s'"
    by (simp add: step_generate_query_answer [OF assms(1) ok assms(3)])
  then have inv: "invoke e (k + Suc limit) d q = Inr ?s'"
    unfolding invoke_def using run_graph_after_steps [OF assms(2), of "Suc limit"] by simp
  have "extract_sql_query (messages ?s') = extract_sql_query (messages s)"
    by (simp add: extract_sql_query_def scan_message_def)
  with inv assms(4,5) show ?thesis
    by (simp add: query_database_def)
qed

text \<open>
  The claim on the conversation about the number of orders: after the executed query the
  scripted model answers in words.
\<close>

lemma count_env_answers:
  "llm count_env [''sql_db_query''] False
     (map without_id
        (SystemMessage (generate_query_system_prompt (dialect count_env)) #
         messages (executed_state ''How many orders are there?'' ''SELECT COUNT(*) FROM orders'' ''[(1,)]'' 3))) =
   Inr (''Done.'', [])"
  by code_simp

theorem answer_ends_the_loop_witness:
  "inj (uuid4 count_env) \<and>
   run_steps count_env 6 Node_list_tables (initial_state count_env 3 ''How many orders are there?'') =
     Inr (Node_generate_query,
          executed_state ''How many orders are there?'' ''SELECT COUNT(*) FROM orders'' ''[(1,)]'' 3) \<and>
   invoke count_env 7 3 ''How many orders are there?'' =
     Inr (answered_state ''How many orders are there?'' ''SELECT COUNT(*) FROM orders'' ''[(1,)]'' 3) \<and>
   query_database count_env 7 [''s1'' \<mapsto> 3]
       \<lparr>query = ''How many orders are there?'', session_id = ''s1''\<rparr> =
     Inr \<lparr>result = ''Done.'', sql_query = Some ''SELECT COUNT(*) FROM orders'',
          response_session_id = ''s1''\<rparr>"
proof -
  have i: "inj (uuid4 count_env)"
    by (simp add: count_env_def inj_example_uuid4)
  have x: "extract_sql_query
             (messages (executed_state ''How many orders are there?'' ''SELECT COUNT(*) FROM orders'' ''[(1,)]'' 3)) =
           Some ''SELECT COUNT(*) FROM orders''"
    by code_simp
  have s: "\<lparr>messages =
              messages (executed_state ''How many orders are there?'' ''SELECT COUNT(*) FROM orders'' ''[(1,)]'' 3) @
              [(AIMessage ''Done.'' [])\<lparr>msg_id := Some (uuid4 count_env
                 (draws (executed_state ''How many orders are there?'' ''SELECT COUNT(*) FROM orders'' ''[(1,)]'' 3)))\<rparr>],
            db = db (executed_state ''How many orders are there?'' ''SELECT COUNT(*) FROM orders'' ''[(1,)]'' 3),
            draws = Suc (draws (executed_state ''How many orders are there?'' ''SELECT COUNT(*) FROM orders'' ''[(1,)]'' 3)),
            trace = trace (executed_state ''How many orders are there?'' ''SELECT COUNT(*) FROM orders'' ''[(1,)]'' 3) @
              [NodeRun Node_generate_query, ModelCall Node_generate_query]\<rparr> =
           answered_state ''How many orders are there?'' ''SELECT COUNT(*) FROM orders'' ''[(1,)]'' 3"
    by code_simp
  have m: "[''s1'' \<mapsto> (3::nat)]
             (session_id \<lparr>query = ''How many orders are there?'', session_id = ''s1''\<rparr>) = Some 3"
    by simp
  from answer_ends_the_loop
         [where active_databases = "[''s1'' \<mapsto> 3]"
            and request = "\<lparr>query = ''How many orders are there?'', session_id = ''s1''\<rparr>"
            and limit = 0,
          OF i count_env_reaches_generate count_env_answers m]
  show ?thesis
    using i count_env_reaches_generate unfolding s x by simp
qed

section \<open>The checked query takes the place of the candidate\<close>

text \<open>
  Claim C2. At every state of a conversation where the control is at \<open>check_query\<close>, the
  last message is a model request with a tool call and a message identifier, and the step
  does this: it sends the model the \<open>query\<close> argument of the request's first call, and when
  the model responds with text \<open>c\<close> and tool calls \<open>tcs\<close> the control moves on to \<open>run_query\<close>
  with a history that differs in its last message only. That message is the model's
  response: its tool calls, and so their identifiers, are the ones the model gives, and its
  message identifier is the candidate's, which is the identifier by which the history
  replaces one message by another. The step fails only when the call has no \<open>query\<close>
  argument or the model fails.
\<close>

theorem check_query_supersedes_candidate:
  assumes "inj (uuid4 e)"
    and "run_steps e k Node_list_tables (initial_state e d q) = Inr (Node_check_query, s)"
  shows "step e Node_check_query s =
           (case map_of (tc_args (hd (tool_calls (last (messages s))))) ''query'' of
              None \<Rightarrow> Inl (KeyError ''query'')
            | Some candidate \<Rightarrow>
               (case llm e [''sql_db_query''] True
                       (map without_id
                          [SystemMessage (check_query_system_prompt (dialect e)),
                           HumanMessage candidate]) of
                  Inl err \<Rightarrow> Inl err
                | Inr (c, tcs) \<Rightarrow>
                    Inr (Node_run_query,
                         \<lparr>messages = butlast (messages s) @
                            [(AIMessage c tcs)\<lparr>msg_id := msg_id (last (messages s))\<rparr>],
                          db = db s, draws = draws s,
                          trace = trace s @
                            [NodeRun Node_check_query, ModelCall Node_check_query]\<rparr>))) \<and>
         messages s \<noteq> [] \<and> role (last (messages s)) = AI \<and>
         tool_calls (last (messages s)) \<noteq> [] \<and> msg_id (last (messages s)) \<noteq> None"
proof -
  have ok: "state_ok e Node_check_query s"
    by (rule reachable_state_ok [OF assms(1,2)])
  then have o: "open_request (messages s)" and tc: "tool_calls (last (messages s)) \<noteq> []"
    by (simp_all add: state_ok_def shape_def)
  from o obtain pre x where px: "messages s = pre @ [x]"
    by (cases "messages s" rule: rev_cases) (auto simp: open_request_def)
  with o have rx: "role x = AI"
    by (simp add: open_request_def)
  from tc px obtain tool_call rest where tcs: "tool_calls x = tool_call # rest"
    by (cases "tool_calls x") auto
  have "list_all (\<lambda>m. msg_id m \<noteq> None) (messages s)"
    using state_ok_ids [OF ok] by (auto simp: ids_ok_def list_all_iff)
  with px have idx: "msg_id x \<noteq> None"
    by simp
  from px have b: "butlast (messages s) = pre" "last (messages s) = x"
    by simp_all
  show ?thesis
    unfolding step_check_query [OF state_ok_ids [OF ok] px rx tcs] b
    using px rx tcs idx by simp
qed

text \<open>The check of the example conversation.\<close>

lemma count_env_check_response:
  "(case map_of (tc_args (hd (tool_calls (last (messages
            (pending_state ''How many orders are there?'' ''SELECT COUNT(*) FROM orders'' 3))))))
          ''query'' of
      None \<Rightarrow> Inl (KeyError ''query'')
    | Some candidate \<Rightarrow>
       (case llm count_env [''sql_db_query''] True
               (map without_id
                  [SystemMessage (check_query_system_prompt (dialect count_env)),
                   HumanMessage candidate]) of
          Inl err \<Rightarrow> Inl err
        | Inr (c, tcs) \<Rightarrow>
            Inr (Node_run_query,
                 \<lparr>messages =
                    butlast (messages
                      (pending_state ''How many orders are there?'' ''SELECT COUNT(*) FROM orders'' 3)) @
                    [(AIMessage c tcs)\<lparr>msg_id := msg_id (last (messages
                       (pending_state ''How many orders are there?'' ''SELECT COUNT(*) FROM orders'' 3)))\<rparr>],
                  db = db (pending_state ''How many orders are there?'' ''SELECT COUNT(*) FROM orders'' 3),
                  draws = draws (pending_state ''How many orders are there?'' ''SELECT COUNT(*) FROM orders'' 3),
                  trace = trace (pending_state ''How many orders are there?'' ''SELECT COUNT(*) FROM orders'' 3) @
                    [NodeRun Node_check_query, ModelCall Node_check_query]\<rparr>))) =
   Inr (Node_run_query,
        checked_state ''How many orders are there?'' ''SELECT COUNT(*) FROM orders'' 3)"
  by code_simp

theorem check_query_supersedes_candidate_witness:
  "inj (uuid4 count_env) \<and>
   run_steps count_env 4 Node_list_tables (initial_state count_env 3 ''How many orders are there?'') =
     Inr (Node_check_query,
          pending_state ''How many orders are there?'' ''SELECT COUNT(*) FROM orders'' 3) \<and>
   llm count_env [''sql_db_query''] True
     (map without_id
        [SystemMessage (check_query_system_prompt (dialect count_env)),
         HumanMessage ''SELECT COUNT(*) FROM orders'']) =
     Inr ([], [\<lparr>tc_name = ''sql_db_query'', tc_args = [(''query'', ''SELECT COUNT(*) FROM orders'')],
                 tc_id = ''call_B''\<rparr>]) \<and>
   step count_env Node_check_query
     (pending_state ''How many orders are there?'' ''SELECT COUNT(*) FROM orders'' 3) =
     Inr (Node_run_query,
          checked_state ''How many orders are there?'' ''SELECT COUNT(*) FROM orders'' 3) \<and>
   msg_id (last (messages
     (checked_state ''How many orders are there?'' ''SELECT COUNT(*) FROM orders'' 3))) =
   msg_id (last (messages
     (pending_state ''How many orders are there?'' ''SELECT COUNT(*) FROM orders'' 3))) \<and>
   tool_calls (last (messages
     (checked_state ''How many orders are there?'' ''SELECT COUNT(*) FROM orders'' 3))) =
     [\<lparr>tc_name = ''sql_db_query'', tc_args = [(''query'', ''SELECT COUNT(*) FROM orders'')],
       tc_id = ''call_B''\<rparr>]"
proof -
  have m: "llm count_env [''sql_db_query''] True
     (map without_id
        [SystemMessage (check_query_system_prompt (dialect count_env)),
         HumanMessage ''SELECT COUNT(*) FROM orders'']) =
     Inr ([], [\<lparr>tc_name = ''sql_db_query'', tc_args = [(''query'', ''SELECT COUNT(*) FROM orders'')],
                 tc_id = ''call_B''\<rparr>])"
    by code_simp
  have i: "msg_id (last (messages
       (checked_state ''How many orders are there?'' ''SELECT COUNT(*) FROM orders'' 3))) =
     msg_id (last (messages
       (pending_state ''How many orders are there?'' ''SELECT COUNT(*) FROM orders'' 3)))"
    by code_simp
  have t: "tool_calls (last (messages
       (checked_state ''How many orders are there?'' ''SELECT COUNT(*) FROM orders'' 3))) =
     [\<lparr>tc_name = ''sql_db_query'', tc_args = [(''query'', ''SELECT COUNT(*) FROM orders'')],
       tc_id = ''call_B''\<rparr>]"
    by code_simp
  from check_query_supersedes_candidate [OF inj_count_env count_env_reaches_check]
  have "step count_env Node_check_query
     (pending_state ''How many orders are there?'' ''SELECT COUNT(*) FROM orders'' 3) =
     Inr (Node_run_query,
          checked_state ''How many orders are there?'' ''SELECT COUNT(*) FROM orders'' 3)"
    unfolding count_env_check_response by simp
  with inj_count_env count_env_reaches_check m i t show ?thesis
    by simp
qed

text \<open>
  The identifier that pairs a request with its result is the one of the tool call, and that
  one is not kept: in the example conversation the candidate's call is \<open>call_A\<close>, the call of
  the message that supersedes it is \<open>call_B\<close>, and the result of the execution answers
  \<open>call_B\<close>.
\<close>

theorem check_query_changes_call_id_counterexample:
  "run_steps count_env 4 Node_list_tables (initial_state count_env 3 ''How many orders are there?'') =
     Inr (Node_check_query,
          pending_state ''How many orders are there?'' ''SELECT COUNT(*) FROM orders'' 3) \<and>
   step count_env Node_check_query
     (pending_state ''How many orders are there?'' ''SELECT COUNT(*) FROM orders'' 3) =
     Inr (Node_run_query,
          checked_state ''How many orders are there?'' ''SELECT COUNT(*) FROM orders'' 3) \<and>
   map tc_id (tool_calls (last (messages
     (pending_state ''How many orders are there?'' ''SELECT COUNT(*) FROM orders'' 3)))) = [''call_A''] \<and>
   map tc_id (tool_calls (last (messages
     (checked_state ''How many orders are there?'' ''SELECT COUNT(*) FROM orders'' 3)))) = [''call_B''] \<and>
   step count_env Node_run_query
     (checked_state ''How many orders are there?'' ''SELECT COUNT(*) FROM orders'' 3) =
     Inr (Node_generate_query,
          executed_state ''How many orders are there?'' ''SELECT COUNT(*) FROM orders'' ''[(1,)]'' 3) \<and>
   tool_call_id (last (messages
     (executed_state ''How many orders are there?'' ''SELECT COUNT(*) FROM orders'' ''[(1,)]'' 3))) =
     Some ''call_B''"
  by code_simp

section \<open>Requests and their results\<close>

text \<open>
  Claim C5. In every state reached from a fresh conversation, the history is paired off
  wherever the next node is \<open>list_tables\<close>, \<open>call_get_schema\<close>, \<open>generate_query\<close> or the end:
  each request of tool calls is followed at once by one result per call, in the order of
  the calls and with the call's identifier, and no result stands anywhere else. Where the
  next node is \<open>get_schema\<close>, \<open>check_query\<close> or \<open>run_query\<close>, the last message is a model
  request that has no result yet, and the history before it is paired off.
\<close>

theorem history_answered_at_model_calls:
  assumes "inj (uuid4 e)"
    and "run_steps e k Node_list_tables (initial_state e d q) = Inr (n, s)"
  shows "if n = Node_get_schema \<or> n = Node_check_query \<or> n = Node_run_query
         then open_request (messages s) else all_answered (messages s)"
  using reachable_state_ok [OF assms]
  by (cases n) (simp_all add: state_ok_def shape_def)

text \<open>The example conversation back at \<open>generate_query\<close>, after the query has been executed.\<close>

theorem history_answered_at_model_calls_witness:
  "inj (uuid4 count_env) \<and>
   run_steps count_env 6 Node_list_tables (initial_state count_env 3 ''How many orders are there?'') =
     Inr (Node_generate_query,
          executed_state ''How many orders are there?'' ''SELECT COUNT(*) FROM orders'' ''[(1,)]'' 3) \<and>
   all_answered
     (messages (executed_state ''How many orders are there?'' ''SELECT COUNT(*) FROM orders'' ''[(1,)]'' 3))"
  using inj_count_env count_env_reaches_generate
    history_answered_at_model_calls [OF inj_count_env count_env_reaches_generate]
  by simp

text \<open>
  The model call of \<open>check_query\<close> is the exception. In the example conversation the request
  \<open>call_A\<close> made by \<open>generate_query\<close> has no result when \<open>check_query\<close> calls the model, and
  it never gets one: the response of \<open>check_query\<close> takes its place in the history.
\<close>

theorem request_unanswered_at_check_counterexample:
  "run_steps count_env 4 Node_list_tables (initial_state count_env 3 ''How many orders are there?'') =
     Inr (Node_check_query,
          pending_state ''How many orders are there?'' ''SELECT COUNT(*) FROM orders'' 3) \<and>
   pending_calls []
     (messages (pending_state ''How many orders are there?'' ''SELECT COUNT(*) FROM orders'' 3)) =
     Some [''call_A''] \<and>
   \<not> all_answered
     (messages (pending_state ''How many orders are there?'' ''SELECT COUNT(*) FROM orders'' 3)) \<and>
   step count_env Node_check_query
     (pending_state ''How many orders are there?'' ''SELECT COUNT(*) FROM orders'' 3) =
     Inr (Node_run_query,
          checked_state ''How many orders are there?'' ''SELECT COUNT(*) FROM orders'' 3) \<and>
   trace (checked_state ''How many orders are there?'' ''SELECT COUNT(*) FROM orders'' 3) =
     trace (pending_state ''How many orders are there?'' ''SELECT COUNT(*) FROM orders'' 3) @
     [NodeRun Node_check_query, ModelCall Node_check_query] \<and>
   invoke count_env 7 3 ''How many orders are there?'' =
     Inr (answered_state ''How many orders are there?'' ''SELECT COUNT(*) FROM orders'' ''[(1,)]'' 3) \<and>
   \<not> list_ex (\<lambda>m. tool_call_id m = Some ''call_A'')
     (messages (answered_state ''How many orders are there?'' ''SELECT COUNT(*) FROM orders'' ''[(1,)]'' 3))"
  by code_simp

section \<open>The tables and the schema are fetched once, at the start\<close>

text \<open>
  Claim C6. In every state of a conversation, reached in \<open>k\<close> steps, the nodes that have run
  are, in this order, \<open>list_tables\<close>, \<open>call_get_schema\<close> and \<open>get_schema\<close> (as many of them
  as \<open>k\<close> allows), followed by nodes of the loop only. So from the third step on each of
  \<open>list_tables\<close> and \<open>get_schema\<close> has run exactly once, and the table-listing tool has been
  called once. No model call of \<open>generate_query\<close> is made in the first three steps, and the
  nodes that ran before the first one are these three and \<open>generate_query\<close> itself. A run
  cannot end in fewer than four steps, and a state reached at the end is what \<open>invoke\<close>
  returns.
\<close>

theorem setup_steps_run_once:
  assumes reach: "run_steps e k Node_list_tables (initial_state e d q) = Inr (n, s)"
  shows "take 3 (nodes_run (trace s)) =
           take k [Node_list_tables, Node_call_get_schema, Node_get_schema] \<and>
         set (drop 3 (nodes_run (trace s))) \<subseteq>
           {Node_generate_query, Node_check_query, Node_run_query} \<and>
         (3 \<le> k \<longrightarrow> count_list (nodes_run (trace s)) Node_list_tables = 1 \<and>
                    count_list (nodes_run (trace s)) Node_get_schema = 1) \<and>
         count_list (trace s) (ToolCall ''sql_db_list_tables'' []) = (if k = 0 then 0 else 1) \<and>
         (if k < 4 then ModelCall Node_generate_query \<notin> set (trace s)
          else nodes_run (takeWhile (\<lambda>ev. ev \<noteq> ModelCall Node_generate_query) (trace s)) =
                 [Node_list_tables, Node_call_get_schema, Node_get_schema, Node_generate_query]) \<and>
         (n = END \<longrightarrow> 4 \<le> k \<and> invoke e (k + limit) d q = Inr s)"
proof -
  note t0 = trace_initial_state [of e d q]
  have inv: "invoke e (k + limit) d q = Inr s" if "n = END"
    using run_graph_reaches_END [of e k Node_list_tables "initial_state e d q" s limit] reach that
    by (simp add: invoke_def)
  consider "k = 0" | "k = 1" | "k = 2" | "k = 3" | j where "k = 3 + Suc j"
  proof -
    have "k = 0 \<or> k = 1 \<or> k = 2 \<or> k = 3 \<or> (\<exists>j. k = 3 + Suc j)"
      by presburger
    with that show ?thesis by blast
  qed
  then show ?thesis
  proof cases
    case 1
    with reach t0 show ?thesis by simp
  next
    case 2
    with reach setup_one [OF _ t0, of e n s] show ?thesis by simp
  next
    case 3
    with reach setup_two [OF _ t0, of e n s] show ?thesis by simp
  next
    case 4
    with reach setup_three [OF _ t0, of e n s] show ?thesis by simp
  next
    case 5
    from reach 5 have "run_steps e (3 + Suc j) Node_list_tables (initial_state e d q) = Inr (n, s)"
      by simp
    from setup_then_loop [OF this t0] obtain t3 rest where
      t: "trace s = t3 @ NodeRun Node_generate_query # ModelCall Node_generate_query # rest" and
      n3: "nodes_run t3 = [Node_list_tables, Node_call_get_schema, Node_get_schema]" and
      m3: "ModelCall Node_generate_query \<notin> set t3" and
      c3: "count_list t3 (ToolCall ''sql_db_list_tables'' []) = 1" and
      lp: "set (nodes_run rest) \<subseteq> {Node_generate_query, Node_check_query, Node_run_query}" and
      lt: "ToolCall ''sql_db_list_tables'' [] \<notin> set rest"
      by blast
    have ns: "nodes_run (trace s) =
        [Node_list_tables, Node_call_get_schema, Node_get_schema] @
        Node_generate_query # nodes_run rest"
      unfolding t by (simp add: nodes_run_append n3)
    have a: "take 3 (nodes_run (trace s)) =
        take k [Node_list_tables, Node_call_get_schema, Node_get_schema]"
      unfolding ns using 5 by simp
    have b: "set (drop 3 (nodes_run (trace s))) \<subseteq>
        {Node_generate_query, Node_check_query, Node_run_query}"
      unfolding ns using lp by simp
    have c: "count_list (nodes_run (trace s)) Node_list_tables = 1 \<and>
             count_list (nodes_run (trace s)) Node_get_schema = 1"
      unfolding ns using loop_nodes_count [OF lp] by simp
    have d: "count_list (trace s) (ToolCall ''sql_db_list_tables'' []) = 1"
      unfolding t using c3 lt by (simp add: count_list_0_iff)
    have "takeWhile (\<lambda>ev. ev \<noteq> ModelCall Node_generate_query)
            (t3 @ NodeRun Node_generate_query # ModelCall Node_generate_query # rest) =
          t3 @ takeWhile (\<lambda>ev. ev \<noteq> ModelCall Node_generate_query)
            (NodeRun Node_generate_query # ModelCall Node_generate_query # rest)"
    proof (rule takeWhile_append2)
      fix ev
      assume "ev \<in> set t3"
      with m3 show "ev \<noteq> ModelCall Node_generate_query" by auto
    qed
    then have "takeWhile (\<lambda>ev. ev \<noteq> ModelCall Node_generate_query) (trace s) =
          t3 @ [NodeRun Node_generate_query]"
      unfolding t by simp
    then have f: "nodes_run (takeWhile (\<lambda>ev. ev \<noteq> ModelCall Node_generate_query) (trace s)) =
          [Node_list_tables, Node_call_get_schema, Node_get_schema, Node_generate_query]"
      by (simp add: nodes_run_append n3)
    from a b c d f inv 5 show ?thesis
      by simp
  qed
qed

text \<open>The example conversation, which goes once round the loop.\<close>

theorem setup_steps_run_once_witness:
  "run_steps count_env 7 Node_list_tables (initial_state count_env 3 ''How many orders are there?'') =
     Inr (END, answered_state ''How many orders are there?'' ''SELECT COUNT(*) FROM orders'' ''[(1,)]'' 3) \<and>
   nodes_run (trace
     (answered_state ''How many orders are there?'' ''SELECT COUNT(*) FROM orders'' ''[(1,)]'' 3)) =
     [Node_list_tables, Node_call_get_schema, Node_get_schema,
      Node_generate_query, Node_check_query, Node_run_query, Node_generate_query] \<and>
   nodes_run (takeWhile (\<lambda>ev. ev \<noteq> ModelCall Node_generate_query) (trace
     (answered_state ''How many orders are there?'' ''SELECT COUNT(*) FROM orders'' ''[(1,)]'' 3))) =
     [Node_list_tables, Node_call_get_schema, Node_get_schema, Node_generate_query] \<and>
   count_list (trace
     (answered_state ''How many orders are there?'' ''SELECT COUNT(*) FROM orders'' ''[(1,)]'' 3))
     (ToolCall ''sql_db_list_tables'' []) = 1 \<and>
   invoke count_env 7 3 ''How many orders are there?'' =
     Inr (answered_state ''How many orders are there?'' ''SELECT COUNT(*) FROM orders'' ''[(1,)]'' 3)"
proof -
  have n: "nodes_run (trace
     (answered_state ''How many orders are there?'' ''SELECT COUNT(*) FROM orders'' ''[(1,)]'' 3)) =
     [Node_list_tables, Node_call_get_schema, Node_get_schema,
      Node_generate_query, Node_check_query, Node_run_query, Node_generate_query]"
    by code_simp
  from setup_steps_run_once [OF count_env_reaches_END, of 0] n count_env_reaches_END
  show ?thesis
    by simp
qed

section \<open>A failed execution goes back to the model\<close>

text \<open>
  Claim C7. Take any state of a conversation where the control is at \<open>run_query\<close>, with
  \<open>cs\<close> the tool calls of the request to execute. The step cannot fail. It appends one tool
  message per call, in the order of the calls; for each call of \<open>sql_db_query\<close> the text of
  that message is the outcome of the query tool on the call's arguments, run on the data
  source as the calls before it left it: the tool's output, which is how the tool reports
  an error of the data source it has caught, or the error text for an exception the tool
  raised. The control goes back to \<open>generate_query\<close>, so a run that is allowed two more
  steps calls the model with the history that holds these messages, and the run and the
  endpoint's response are from there on what the model's next responses make them: the
  endpoint answers with an error only if a later model call fails, a later \<open>check_query\<close>
  fails or the runner's limit is used up.
\<close>

theorem execution_error_returns_to_generate:
  assumes inj: "inj (uuid4 e)"
    and reach: "run_steps e k Node_list_tables (initial_state e d q) = Inr (Node_run_query, s)"
    and calls: "tool_calls (last (messages s)) = cs"
    and res: "run_tool_calls ''sql_db_query'' (run_query_tool e) (db s) cs = (new, d', evs)"
    and s': "s' = \<lparr>messages = messages s @ stamp (uuid4 e) (draws s) new, db = d',
                    draws = draws s + length new,
                    trace = trace s @ NodeRun Node_run_query # evs\<rparr>"
    and session: "active_databases (session_id request) = Some d"
    and question: "query request = q"
  shows "step e Node_run_query s = Inr (Node_generate_query, s') \<and>
         length new = length cs \<and>
         (\<forall>i<length cs. tc_name (cs ! i) = ''sql_db_query'' \<longrightarrow>
            new ! i =
              ToolMessage
                (outcome_content (fst (run_query_tool e
                   (execute_all e (db s)
                      (map tc_args (filter (\<lambda>c. tc_name c = ''sql_db_query'') (take i cs))))
                   (tc_args (cs ! i)))))
                (tc_id (cs ! i))) \<and>
         invoke e (k + Suc (Suc limit)) d q =
           (case llm e [''sql_db_query''] False
                   (map without_id
                      (SystemMessage (generate_query_system_prompt (dialect e)) # messages s')) of
              Inl err \<Rightarrow> Inl err
            | Inr (c, tcs) \<Rightarrow>
                run_graph e limit (if tcs = [] then END else Node_check_query)
                  \<lparr>messages = messages s' @ [(AIMessage c tcs)\<lparr>msg_id := Some (uuid4 e (draws s'))\<rparr>],
                   db = db s', draws = Suc (draws s'),
                   trace = trace s' @ [NodeRun Node_generate_query, ModelCall Node_generate_query]\<rparr>) \<and>
         query_database e (k + Suc (Suc limit)) active_databases request =
           (case llm e [''sql_db_query''] False
                   (map without_id
                      (SystemMessage (generate_query_system_prompt (dialect e)) # messages s')) of
              Inl err \<Rightarrow> Inl (HTTPException 500 (''Error processing query: '' @ error_text err))
            | Inr (c, tcs) \<Rightarrow>
               (case run_graph e limit (if tcs = [] then END else Node_check_query)
                       \<lparr>messages = messages s' @
                          [(AIMessage c tcs)\<lparr>msg_id := Some (uuid4 e (draws s'))\<rparr>],
                        db = db s', draws = Suc (draws s'),
                        trace = trace s' @
                          [NodeRun Node_generate_query, ModelCall Node_generate_query]\<rparr> of
                  Inl err \<Rightarrow> Inl (HTTPException 500 (''Error processing query: '' @ error_text err))
                | Inr final \<Rightarrow>
                    Inr \<lparr>result = content (last (messages final)),
                         sql_query = extract_sql_query (messages final),
                         response_session_id = session_id request\<rparr>))"
proof -
  have ok: "state_ok e Node_run_query s"
    by (rule reachable_state_ok [OF inj reach])
  then have "open_request (messages s)"
    by (simp add: state_ok_def shape_def)
  then have l: "messages s \<noteq> []" "role (last (messages s)) = AI"
    by (simp_all add: open_request_def)
  have st: "step e Node_run_query s = Inr (Node_generate_query, s')"
    unfolding step_run_query [OF inj state_ok_ids [OF ok] l] calls res s' by simp
  have len: "length new = length cs"
    by (rule run_tool_calls_length [OF res])
  have nth: "\<forall>i<length cs. tc_name (cs ! i) = ''sql_db_query'' \<longrightarrow>
            new ! i =
              ToolMessage
                (outcome_content (fst (run_query_tool e
                   (execute_all e (db s)
                      (map tc_args (filter (\<lambda>c. tc_name c = ''sql_db_query'') (take i cs))))
                   (tc_args (cs ! i)))))
                (tc_id (cs ! i))"
    using run_tool_calls_nth [OF res] by simp
  have ok': "state_ok e Node_generate_query s'"
    by (rule step_state_ok [OF inj ok st])
  have "run_graph e (k + Suc (Suc limit)) Node_list_tables (initial_state e d q) =
        run_graph e (Suc (Suc limit)) Node_run_query s"
    by (rule run_graph_after_steps [OF reach]) simp
  also have "\<dots> = run_graph e (Suc limit) Node_generate_query s'"
    by (simp add: st)
  also have "\<dots> =
      (case llm e [''sql_db_query''] False
              (map without_id
                 (SystemMessage (generate_query_system_prompt (dialect e)) # messages s')) of
         Inl err \<Rightarrow> Inl err
       | Inr (c, tcs) \<Rightarrow>
           run_graph e limit (if tcs = [] then END else Node_check_query)
             \<lparr>messages = messages s' @ [(AIMessage c tcs)\<lparr>msg_id := Some (uuid4 e (draws s'))\<rparr>],
              db = db s', draws = Suc (draws s'),
              trace = trace s' @ [NodeRun Node_generate_query, ModelCall Node_generate_query]\<rparr>)"
    by (simp add: step_generate_query [OF inj state_ok_ids [OF ok']] split: sum.splits)
  finally have inv: "invoke e (k + Suc (Suc limit)) d q =
      (case llm e [''sql_db_query''] False
              (map without_id
                 (SystemMessage (generate_query_system_prompt (dialect e)) # messages s')) of
         Inl err \<Rightarrow> Inl err
       | Inr (c, tcs) \<Rightarrow>
           run_graph e limit (if tcs = [] then END else Node_check_query)
             \<lparr>messages = messages s' @ [(AIMessage c tcs)\<lparr>msg_id := Some (uuid4 e (draws s'))\<rparr>],
              db = db s', draws = Suc (draws s'),
              trace = trace s' @ [NodeRun Node_generate_query, ModelCall Node_generate_query]\<rparr>)"
    by (simp add: invoke_def)
  have ep: "query_database e (k + Suc (Suc limit)) active_databases request =
      (case invoke e (k + Suc (Suc limit)) d q of
         Inl err \<Rightarrow> Inl (HTTPException 500 (''Error processing query: '' @ error_text err))
       | Inr final \<Rightarrow>
           Inr \<lparr>result = content (last (messages final)),
                sql_query = extract_sql_query (messages final),
                response_session_id = session_id request\<rparr>)"
    using session question by (simp add: query_database_def Let_def split: sum.splits)
  show ?thesis
    unfolding ep unfolding inv using st len nth
    by (simp split: sum.splits)
qed


text \<open>
  The conversation with the misspelt table name: the query tool raises, the error is the
  result the model sees, the model answers in words and the endpoint responds with that
  answer.
\<close>

lemma typo_env_reaches_run:
  "run_steps typo_env 5 Node_list_tables (initial_state typo_env 3 ''How many orders are there?'') =
     Inr (Node_run_query, checked_state ''How many orders are there?'' ''SELECT COUNT(*) FROM ordrs'' 3)"
  by code_simp

lemma typo_env_calls:
  "tool_calls (last (messages (checked_state ''How many orders are there?'' ''SELECT COUNT(*) FROM ordrs'' 3))) =
   [\<lparr>tc_name = ''sql_db_query'', tc_args = [(''query'', ''SELECT COUNT(*) FROM ordrs'')],
      tc_id = ''call_B''\<rparr>]"
  by code_simp

lemma typo_env_results:
  "run_tool_calls ''sql_db_query'' (run_query_tool typo_env)
     (db (checked_state ''How many orders are there?'' ''SELECT COUNT(*) FROM ordrs'' 3))
     [\<lparr>tc_name = ''sql_db_query'', tc_args = [(''query'', ''SELECT COUNT(*) FROM ordrs'')],
      tc_id = ''call_B''\<rparr>] =
   ([ToolMessage ''Error: no such table: ordrs\<newline> Please fix your mistakes.'' ''call_B''], 3,
    [ToolCall ''sql_db_query'' [(''query'', ''SELECT COUNT(*) FROM ordrs'')]])"
  by code_simp

lemma typo_env_executed:
  "executed_state ''How many orders are there?'' ''SELECT COUNT(*) FROM ordrs''
     ''Error: no such table: ordrs\<newline> Please fix your mistakes.'' 3 =
   \<lparr>messages = messages (checked_state ''How many orders are there?'' ''SELECT COUNT(*) FROM ordrs'' 3) @
      stamp (uuid4 typo_env) (draws (checked_state ''How many orders are there?'' ''SELECT COUNT(*) FROM ordrs'' 3))
        [ToolMessage ''Error: no such table: ordrs\<newline> Please fix your mistakes.'' ''call_B''],
    db = 3,
    draws = draws (checked_state ''How many orders are there?'' ''SELECT COUNT(*) FROM ordrs'' 3) +
      length [ToolMessage ''Error: no such table: ordrs\<newline> Please fix your mistakes.'' ''call_B''],
    trace = trace (checked_state ''How many orders are there?'' ''SELECT COUNT(*) FROM ordrs'' 3) @
      NodeRun Node_run_query #
      [ToolCall ''sql_db_query'' [(''query'', ''SELECT COUNT(*) FROM ordrs'')]]\<rparr>"
  by code_simp

lemma typo_env_answers:
  "llm typo_env [''sql_db_query''] False
     (map without_id
        (SystemMessage (generate_query_system_prompt (dialect typo_env)) #
         messages (executed_state ''How many orders are there?'' ''SELECT COUNT(*) FROM ordrs''
       ''Error: no such table: ordrs\<newline> Please fix your mistakes.'' 3))) =
   Inr (''Done.'', [])"
  by code_simp

lemma typo_env_answered:
  "\<lparr>messages = messages (executed_state ''How many orders are there?'' ''SELECT COUNT(*) FROM ordrs''
       ''Error: no such table: ordrs\<newline> Please fix your mistakes.'' 3) @
      [(AIMessage ''Done.'' [])\<lparr>msg_id := Some (uuid4 typo_env (draws (executed_state ''How many orders are there?'' ''SELECT COUNT(*) FROM ordrs''
       ''Error: no such table: ordrs\<newline> Please fix your mistakes.'' 3)))\<rparr>],
    db = db (executed_state ''How many orders are there?'' ''SELECT COUNT(*) FROM ordrs''
       ''Error: no such table: ordrs\<newline> Please fix your mistakes.'' 3),
    draws = Suc (draws (executed_state ''How many orders are there?'' ''SELECT COUNT(*) FROM ordrs''
       ''Error: no such table: ordrs\<newline> Please fix your mistakes.'' 3)),
    trace = trace (executed_state ''How many orders are there?'' ''SELECT COUNT(*) FROM ordrs''
       ''Error: no such table: ordrs\<newline> Please fix your mistakes.'' 3) @
      [NodeRun Node_generate_query, ModelCall Node_generate_query]\<rparr> =
   answered_state ''How many orders are there?'' ''SELECT COUNT(*) FROM ordrs''
     ''Error: no such table: ordrs\<newline> Please fix your mistakes.'' 3"
  by code_simp

theorem execution_error_returns_to_generate_witness:
  "inj (uuid4 typo_env) \<and>
   run_steps typo_env 5 Node_list_tables (initial_state typo_env 3 ''How many orders are there?'') =
     Inr (Node_run_query, checked_state ''How many orders are there?'' ''SELECT COUNT(*) FROM ordrs'' 3) \<and>
   run_query_tool typo_env 3 [(''query'', ''SELECT COUNT(*) FROM ordrs'')] =
     (Raised ''no such table: ordrs'', 3) \<and>
   step typo_env Node_run_query (checked_state ''How many orders are there?'' ''SELECT COUNT(*) FROM ordrs'' 3) =
     Inr (Node_generate_query,
          executed_state ''How many orders are there?'' ''SELECT COUNT(*) FROM ordrs''
            ''Error: no such table: ordrs\<newline> Please fix your mistakes.'' 3) \<and>
   invoke typo_env 7 3 ''How many orders are there?'' =
     Inr (answered_state ''How many orders are there?'' ''SELECT COUNT(*) FROM ordrs''
            ''Error: no such table: ordrs\<newline> Please fix your mistakes.'' 3) \<and>
   query_database typo_env 7 [''s1'' \<mapsto> 3]
       \<lparr>query = ''How many orders are there?'', session_id = ''s1''\<rparr> =
     Inr \<lparr>result = ''Done.'', sql_query = Some ''SELECT COUNT(*) FROM ordrs'',
          response_session_id = ''s1''\<rparr>"
proof -
  have i: "inj (uuid4 typo_env)"
    by (simp add: typo_env_def inj_example_uuid4)
  have t: "run_query_tool typo_env 3 [(''query'', ''SELECT COUNT(*) FROM ordrs'')] =
             (Raised ''no such table: ordrs'', 3)"
    by code_simp
  have m: "[''s1'' \<mapsto> (3::nat)]
             (session_id \<lparr>query = ''How many orders are there?'', session_id = ''s1''\<rparr>) = Some 3"
    by simp
  have x: "extract_sql_query (messages (answered_state ''How many orders are there?'' ''SELECT COUNT(*) FROM ordrs''
       ''Error: no such table: ordrs\<newline> Please fix your mistakes.'' 3)) =
           Some ''SELECT COUNT(*) FROM ordrs''"
    by code_simp
  have c: "content (last (messages (answered_state ''How many orders are there?'' ''SELECT COUNT(*) FROM ordrs''
       ''Error: no such table: ordrs\<newline> Please fix your mistakes.'' 3))) = ''Done.''"
    by code_simp
  note claim = execution_error_returns_to_generate
         [where active_databases = "[''s1'' \<mapsto> 3]"
            and request = "\<lparr>query = ''How many orders are there?'', session_id = ''s1''\<rparr>"
            and limit = 0,
          OF i typo_env_reaches_run typo_env_calls typo_env_results typo_env_executed m]
  from claim have "step typo_env Node_run_query (checked_state ''How many orders are there?'' ''SELECT COUNT(*) FROM ordrs'' 3) =
     Inr (Node_generate_query,
          executed_state ''How many orders are there?'' ''SELECT COUNT(*) FROM ordrs''
            ''Error: no such table: ordrs\<newline> Please fix your mistakes.'' 3)"
    by simp
  moreover from claim have "invoke typo_env 7 3 ''How many orders are there?'' =
     Inr (answered_state ''How many orders are there?'' ''SELECT COUNT(*) FROM ordrs''
            ''Error: no such table: ordrs\<newline> Please fix your mistakes.'' 3)"
    unfolding typo_env_answers by (simp add: typo_env_answered)
  moreover from claim have "query_database typo_env 7 [''s1'' \<mapsto> 3]
       \<lparr>query = ''How many orders are there?'', session_id = ''s1''\<rparr> =
     Inr \<lparr>result = ''Done.'', sql_query = Some ''SELECT COUNT(*) FROM ordrs'',
          response_session_id = ''s1''\<rparr>"
    unfolding typo_env_answers by (simp add: typo_env_answered x c)
  ultimately show ?thesis
    using i typo_env_reaches_run t by simp
qed

section \<open>A model that always asks for a query keeps the loop going\<close>








section \<open>The executed query reported by the endpoint\<close>

lemma first_sql_call_find:
  "first_sql_call tcs = find (\<lambda>tc. tc_name tc = ''sql_db_query'') tcs"
  by (induction tcs) simp_all

lemma first_sql_call_None:
  "(first_sql_call tcs = None) = (\<not> list_ex (\<lambda>tc. tc_name tc = ''sql_db_query'') tcs)"
  by (induction tcs) simp_all

lemma scan_message_no_call: "\<not> has_sql_call m \<Longrightarrow> scan_message acc m = acc"
proof (cases "first_sql_call (tool_calls m)")
  case None
  then show ?thesis by (simp add: scan_message_def)
next
  case (Some tc)
  assume "\<not> has_sql_call m"
  with Some first_sql_call_None [of "tool_calls m"] have "role m \<noteq> AI"
    by (auto simp: has_sql_call_def)
  then show ?thesis by (simp add: scan_message_def)
qed

lemma scan_message_call:
  "has_sql_call m \<Longrightarrow>
   scan_message acc m =
     (case find (\<lambda>tc. tc_name tc = ''sql_db_query'') (tool_calls m) of
        None \<Rightarrow> None | Some tc \<Rightarrow> map_of (tc_args tc) ''query'')"
proof -
  assume h: "has_sql_call m"
  then have "first_sql_call (tool_calls m) \<noteq> None"
    by (simp add: first_sql_call_None has_sql_call_def)
  moreover from h have "role m = AI" "tool_calls m \<noteq> []"
    by (auto simp: has_sql_call_def)
  ultimately show ?thesis
    by (auto simp: scan_message_def first_sql_call_find split: option.splits)
qed

lemma extract_sql_query_spec: "extract_sql_query msgs = sql_query_spec msgs"
proof (induction msgs rule: rev_induct)
  case Nil
  show ?case by (simp add: extract_sql_query_def sql_query_spec_def)
next
  case (snoc m msgs)
  have unfold: "extract_sql_query (msgs @ [m]) = scan_message (extract_sql_query msgs) m"
    by (simp add: extract_sql_query_def)
  show ?case
  proof (cases "has_sql_call m")
    case True
    then show ?thesis
      unfolding unfold by (simp add: scan_message_call sql_query_spec_def)
  next
    case False
    then show ?thesis
      unfolding unfold using snoc.IH by (simp add: scan_message_no_call sql_query_spec_def)
  qed
qed

text \<open>
  Claim C10. The \<open>sql_query\<close> field of the endpoint's answer is the \<open>query\<close> argument of the
  \<open>sql_db_query\<close> call in the last message of the final history that has such a call (later
  messages overwrite earlier matches), and it is absent when no message has one. The
  endpoint as a whole: 404 for an unknown session, 500 for a failed run, and otherwise the
  last message's text together with that query.
\<close>

theorem query_database_sql_query:
  "query_database e limit active_databases request =
     (case active_databases (session_id request) of
        None \<Rightarrow> Inl (HTTPException 404 ''Session not found. Please upload a database first.'')
      | Some d \<Rightarrow>
          (case invoke e limit d (query request) of
             Inl err \<Rightarrow> Inl (HTTPException 500 (''Error processing query: '' @ error_text err))
           | Inr s \<Rightarrow>
               Inr \<lparr>result = content (last (messages s)),
                    sql_query = sql_query_spec (messages s),
                    response_session_id = session_id request\<rparr>))"
  by (simp add: query_database_def extract_sql_query_spec split: option.splits sum.splits)

end
